theory Spec2Isabelle
  imports Complex_Main
begin

section \<open>Python values used by consumer\_pinkston.py\<close>

text \<open>
  The exceptions the consumer can meet. All of them are subclasses of Python's
  \<open>Exception\<close>; the only distinction the code makes is whether an exception is a
  \<open>FileNotFoundError\<close> (its own handler, line 207) or anything else (line 210).
\<close>

datatype exn =
    AttributeError | TypeError | ValueError | OverflowError | JSONDecodeError
  | OSError | FileNotFoundError | PermissionError | DatabaseError

text \<open>
  A Python float: a finite value, an infinity or a NaN. Finite values are read as the
  real number they denote. Comparisons with a NaN are false, as in Python.
\<close>

datatype pyfloat = Finite real | PosInf | NegInf | NaN

fun float_gt :: "pyfloat \<Rightarrow> real \<Rightarrow> bool" where
  "float_gt (Finite x) c = (c < x)"
| "float_gt PosInf c = True"
| "float_gt NegInf c = False"
| "float_gt NaN c = False"

fun float_ge :: "pyfloat \<Rightarrow> real \<Rightarrow> bool" where
  "float_ge (Finite x) c = (c \<le> x)"
| "float_ge PosInf c = True"
| "float_ge NegInf c = False"
| "float_ge NaN c = False"

fun float_lt :: "pyfloat \<Rightarrow> real \<Rightarrow> bool" where
  "float_lt (Finite x) c = (x < c)"
| "float_lt PosInf c = False"
| "float_lt NegInf c = True"
| "float_lt NaN c = False"

fun float_le :: "pyfloat \<Rightarrow> real \<Rightarrow> bool" where
  "float_le (Finite x) c = (x \<le> c)"
| "float_le PosInf c = False"
| "float_le NegInf c = True"
| "float_le NaN c = False"

text \<open>
  What \<open>json.loads\<close> returns: \<open>None\<close>, a bool, an int, a float, a str, a list or a
  dict with string keys (an association list read with \<open>map_of\<close>).
\<close>

datatype json =
    JNull | JBool bool | JInt int | JFloat pyfloat | JStr string
  | JArr "json list" | JObj "(string \<times> json) list"

text \<open>Truth value of a Python object, as the \<open>or\<close> of line 53 tests it.\<close>

fun truthy :: "json \<Rightarrow> bool" where
  "truthy JNull = False"
| "truthy (JBool b) = b"
| "truthy (JInt i) = (i \<noteq> 0)"
| "truthy (JFloat x) = (x \<noteq> Finite 0)"
| "truthy (JStr s) = (s \<noteq> [])"
| "truthy (JArr xs) = (xs \<noteq> [])"
| "truthy (JObj kvs) = (kvs \<noteq> [])"

text \<open>
  \<open>d.get(k, default)\<close> on a dict. On any other value the attribute lookup
  \<open>raw_message.get\<close> raises \<open>AttributeError\<close>; \<open>process_message_body\<close> below
  makes that case explicit.
\<close>

definition get :: "(string \<times> json) list \<Rightarrow> string \<Rightarrow> json \<Rightarrow> json" where
  "get kvs k d = (case map_of kvs k of None \<Rightarrow> d | Some v \<Rightarrow> v)"

subsection \<open>Whitespace, \<open>str.strip()\<close> and \<open>str.split()\<close>\<close>

text \<open>
  Text is a list of characters with code points below 256. \<open>str.isspace\<close> holds there
  for the code points 9 to 13, 28 to 32, 133 and 160.
\<close>

definition isspace :: "char \<Rightarrow> bool" where
  "isspace c \<longleftrightarrow> (of_char c :: nat) \<in> {9, 10, 11, 12, 13, 28, 29, 30, 31, 32, 133, 160}"

definition strip :: "string \<Rightarrow> string" where
  "strip s = rev (dropWhile isspace (rev (dropWhile isspace s)))"

text \<open>
  \<open>text.split()\<close> with no argument: runs of whitespace separate the words and no empty
  word is produced. \<open>split_from cur s\<close> scans \<open>s\<close> with the word \<open>cur\<close> open.
\<close>

fun split_from :: "string \<Rightarrow> string \<Rightarrow> string list" where
  "split_from cur [] = (if cur = [] then [] else [cur])"
| "split_from cur (c # cs) =
     (if isspace c then (if cur = [] then split_from [] cs else cur # split_from [] cs)
      else split_from (cur @ [c]) cs)"

definition split :: "string \<Rightarrow> string list" where
  "split s = split_from [] s"

text \<open>
  The number of whitespace-delimited tokens of a text, as the specification words it: the
  number of positions where a token starts, that is a character that is not whitespace
  and is first in the text or follows a whitespace character.
\<close>

definition token_count :: "string \<Rightarrow> nat" where
  "token_count s =
     length (filter (\<lambda>i. \<not> isspace (s ! i) \<and> (i = 0 \<or> isspace (s ! (i - 1)))) [0..<length s])"

section \<open>The environment\<close>

text \<open>
  Everything the consumer obtains from outside itself: the library functions
  \<open>json.loads\<close>, \<open>float\<close> and \<open>int\<close> on a str or an int, the clock, the live data file
  as each \<open>open\<close> finds it, the outcome of each database operation and the
  configuration. A fault is the exception the operation raises. Outcomes that vary are
  indexed by the tick at which they are asked for.
\<close>

record env =
  json_loads :: "string \<Rightarrow> exn + json"
  float_of_str :: "string \<Rightarrow> exn + pyfloat"
  float_of_int :: "int \<Rightarrow> exn + pyfloat"
  int_of_str :: "string \<Rightarrow> exn + int"
  utcnow :: "nat \<Rightarrow> string"
  file_at :: "nat \<Rightarrow> exn + string"
  primary_fault :: "nat \<Rightarrow> exn option"
  insight_fault :: "nat \<Rightarrow> exn option"
  init_db_fault :: "nat \<Rightarrow> exn option"
  init_insights_fault :: "nat \<Rightarrow> exn option"
  config_read :: "exn + int"
  unlink_fault :: "exn option"

text \<open>\<open>float(x)\<close> and \<open>int(x)\<close> on a value that came out of \<open>json.loads\<close>.\<close>

fun py_float :: "env \<Rightarrow> json \<Rightarrow> exn + pyfloat" where
  "py_float e (JFloat x) = Inr x"
| "py_float e (JInt i) = float_of_int e i"
| "py_float e (JBool b) = Inr (Finite (if b then 1 else 0))"
| "py_float e (JStr s) = float_of_str e s"
| "py_float e JNull = Inl TypeError"
| "py_float e (JArr xs) = Inl TypeError"
| "py_float e (JObj kvs) = Inl TypeError"

definition truncate :: "real \<Rightarrow> int" where
  "truncate r = (if 0 \<le> r then \<lfloor>r\<rfloor> else \<lceil>r\<rceil>)"

fun py_int :: "env \<Rightarrow> json \<Rightarrow> exn + int" where
  "py_int e (JInt i) = Inr i"
| "py_int e (JBool b) = Inr (if b then 1 else 0)"
| "py_int e (JFloat (Finite r)) = Inr (truncate r)"
| "py_int e (JFloat PosInf) = Inl OverflowError"
| "py_int e (JFloat NegInf) = Inl OverflowError"
| "py_int e (JFloat NaN) = Inl ValueError"
| "py_int e (JStr s) = int_of_str e s"
| "py_int e JNull = Inl TypeError"
| "py_int e (JArr xs) = Inl TypeError"
| "py_int e (JObj kvs) = Inl TypeError"

section \<open>The processed message and the program state\<close>

record processed =
  message :: string
  author :: json
  timestamp :: json
  category :: json
  sentiment :: pyfloat
  sentiment_label :: string
  keyword_mentioned :: json
  message_length :: int
  word_count :: nat
  processed_at :: string

datatype level = INFO | WARNING | ERROR

text \<open>The log lines of the source, with the values they interpolate.\<close>

datatype msg =
    Processed_message processed
  | Error_processing_message exn
  | Initialized_insights_db
  | Failed_to_initialize_insights_db exn
  | Inserted_one_insight_row
  | Failed_to_insert_insight exn
  | Inserted_one_message
  | Failed_to_insert_message exn
  | Called_consume_messages_from_file
  | Arg_live_data_path
  | Arg_sql_path
  | Arg_interval_secs int
  | Arg_last_position nat
  | Step1_initialize_the_database
  | Step2_set_the_last_position_to_0
  | Step3_read_from_live_data_file_at_position nat
  | Live_data_file_not_found
  | Error_reading_from_live_data_file exn
  | Starting_consumer
  | Things_can_fail
  | Moved_env_variables
  | STEP1_read_environment_variables
  | SUCCESS_read_environment_variables
  | Failed_to_read_environment_variables exn
  | STEP2_delete_any_prior_database_file
  | SUCCESS_deleted_database_file
  | Failed_to_delete_db_file exn
  | STEP3_initialize_a_new_database
  | Failed_to_create_db_table exn
  | STEP4_begin_consuming
  | Unexpected_error exn
  | Consumer_shutting_down

text \<open>
  The state the program acts on: the rows of the primary table and of
  \<open>insights_pinkston\<close> (with the \<open>id\<close> column), the log, the tick of the next outside
  event, the number of INSERT statements issued to each table, the sleeps taken and
  whether the database file exists.
\<close>

record state =
  primary :: "processed list"
  insights :: "(nat \<times> processed) list"
  logs :: "(level \<times> msg) list"
  tick :: nat
  primary_attempts :: nat
  insight_attempts :: nat
  slept :: "int list"
  db_file :: bool

definition logger :: "level \<Rightarrow> msg \<Rightarrow> state \<Rightarrow> state" where
  "logger l m st = st\<lparr>logs := logs st @ [(l, m)]\<rparr>"

section \<open>process\_message (lines 46 to 81)\<close>

fun label_of :: "pyfloat \<Rightarrow> string" where
  "label_of s = (if float_gt s 0.6 then ''high'' else if float_ge s 0.4 then ''medium'' else ''low'')"

text \<open>
  The body of the \<open>try\<close>, lines 53 to 75; \<open>Inl\<close> is the exception that leaves it.
  A \<open>raw_message\<close> that is not a dict has no \<open>get\<close> (line 53) and a \<open>text\<close> that is
  not a str has no \<open>split\<close> (line 55): both raise \<open>AttributeError\<close>.
\<close>

definition process_message_body :: "env \<Rightarrow> string \<Rightarrow> json \<Rightarrow> exn + processed" where
  "process_message_body e now raw_message =
     (case raw_message of
        JObj d \<Rightarrow>
          (let text = (if truthy (get d ''message'' (JStr [])) then get d ''message'' (JStr [])
                       else JStr [])
           in case py_float e (get d ''sentiment'' (JFloat (Finite 0))) of
                Inl x \<Rightarrow> Inl x
              | Inr sentiment_v \<Rightarrow>
                  (case text of
                     JStr t \<Rightarrow>
                       (case py_int e (get d ''message_length'' (JInt (int (length t)))) of
                          Inl x \<Rightarrow> Inl x
                        | Inr n \<Rightarrow>
                            Inr \<lparr>message = t,
                                 author = get d ''author'' JNull,
                                 timestamp = get d ''timestamp'' JNull,
                                 category = get d ''category'' JNull,
                                 sentiment = sentiment_v,
                                 sentiment_label = label_of sentiment_v,
                                 keyword_mentioned = get d ''keyword_mentioned'' JNull,
                                 message_length = n,
                                 word_count = length (split t),
                                 processed_at = now\<rparr>)
                   | _ \<Rightarrow> Inl AttributeError))
      | _ \<Rightarrow> Inl AttributeError)"

text \<open>
  The function with its handler: an exception is logged at error level and the result is
  \<open>None\<close>; otherwise the record is logged and returned. The clock is read at the current
  tick.
\<close>

definition process_message :: "env \<Rightarrow> json \<Rightarrow> state \<Rightarrow> processed option \<times> state" where
  "process_message e raw_message st =
     (case process_message_body e (utcnow e (tick st)) raw_message of
        Inr p \<Rightarrow> (Some p, logger INFO (Processed_message p) (st\<lparr>tick := Suc (tick st)\<rparr>))
      | Inl x \<Rightarrow> (None, logger ERROR (Error_processing_message x) st))"

section \<open>The database helpers\<close>

text \<open>
  Modelled from the spec: \<open>init_db\<close> and \<open>insert_message\<close> of
  \<open>sqlite_consumer_case.py\<close>, imported at line 40 and not part of the source at hand.
  The spec gives the primary store an \<open>initialize(path)\<close> and an
  \<open>insert(record, path)\<close>, an append-only insert whose failure is logged and neither
  aborts the cycle nor is retried. A failed initialization raises.
\<close>

definition init_db :: "env \<Rightarrow> state \<Rightarrow> exn option \<times> state" where
  "init_db e st =
     (case init_db_fault e (tick st) of
        None \<Rightarrow> (None, st\<lparr>tick := Suc (tick st), db_file := True\<rparr>)
      | Some x \<Rightarrow> (Some x, st\<lparr>tick := Suc (tick st)\<rparr>))"

definition insert_message :: "env \<Rightarrow> processed \<Rightarrow> state \<Rightarrow> state" where
  "insert_message e p st =
     (let st1 = st\<lparr>tick := Suc (tick st), primary_attempts := Suc (primary_attempts st)\<rparr> in
      case primary_fault e (tick st) of
        None \<Rightarrow> logger INFO Inserted_one_message (st1\<lparr>primary := primary st1 @ [p]\<rparr>)
      | Some x \<Rightarrow> logger ERROR (Failed_to_insert_message x) st1)"

text \<open>
  \<open>init_insights_db\<close>, lines 87 to 117: a failure is logged and raised again.
\<close>

definition init_insights_db :: "env \<Rightarrow> state \<Rightarrow> exn option \<times> state" where
  "init_insights_db e st =
     (case init_insights_fault e (tick st) of
        None \<Rightarrow>
          (None, logger INFO Initialized_insights_db (st\<lparr>tick := Suc (tick st), db_file := True\<rparr>))
      | Some x \<Rightarrow>
          (Some x, logger ERROR (Failed_to_initialize_insights_db x) (st\<lparr>tick := Suc (tick st)\<rparr>)))"

text \<open>
  \<open>insert_insight\<close>, lines 119 to 150. The body of its \<open>try\<close> issues one INSERT; the
  \<open>id\<close> column is AUTOINCREMENT and no row is ever deleted from the table while it
  exists, so the new id is the number of rows plus one. The handler of line 149 logs the
  exception and the function returns. The first component of the result is the exception
  that leaves the function, if any.
\<close>

definition insert_insight_body :: "env \<Rightarrow> processed \<Rightarrow> state \<Rightarrow> exn option \<times> state" where
  "insert_insight_body e insight st =
     (let st1 = st\<lparr>tick := Suc (tick st), insight_attempts := Suc (insight_attempts st)\<rparr> in
      case insight_fault e (tick st) of
        None \<Rightarrow>
          (None, logger INFO Inserted_one_insight_row
                   (st1\<lparr>insights := insights st1 @ [(Suc (length (insights st1)), insight)]\<rparr>))
      | Some x \<Rightarrow> (Some x, st1))"

definition insert_insight :: "env \<Rightarrow> processed \<Rightarrow> state \<Rightarrow> exn option \<times> state" where
  "insert_insight e insight st =
     (case insert_insight_body e insight st of
        (None, st1) \<Rightarrow> (None, st1)
      | (Some x, st1) \<Rightarrow> (None, logger ERROR (Failed_to_insert_insight x) st1))"

section \<open>The text file object\<close>

text \<open>
  A file opened with \<open>open(path, "r")\<close>: its text (decoded, newlines translated to
  \<open>\\n\<close>), the read position and the flag CPython's text layer keeps about \<open>tell\<close>.
  Iterating with \<open>for line in file\<close> calls \<open>__next__\<close>, which returns the text up to and
  including the next newline, or the rest of the text when no newline follows, and
  switches telling off; at the end of the file it switches telling back on. \<open>tell\<close>
  raises \<open>OSError\<close> ("telling position disabled by next() call") while telling is off.
\<close>

record text_file =
  content :: string
  pos :: nat
  telling :: bool

definition open_file :: "string \<Rightarrow> text_file" where
  "open_file s = \<lparr>content = s, pos = 0, telling = True\<rparr>"

definition seek :: "text_file \<Rightarrow> nat \<Rightarrow> text_file" where
  "seek f n = f\<lparr>pos := n, telling := True\<rparr>"

definition next_line :: "text_file \<Rightarrow> string option \<times> text_file" where
  "next_line f =
     (let rest = drop (pos f) (content f) in
      if rest = [] then (None, f\<lparr>telling := True\<rparr>)
      else
        (let body = takeWhile (\<lambda>c. c \<noteq> CHR 0x0A) rest;
             line = (if length body < length rest then body @ [CHR 0x0A] else body)
         in (Some line, f\<lparr>pos := pos f + length line, telling := False\<rparr>)))"

definition tell :: "text_file \<Rightarrow> exn + nat" where
  "tell f = (if telling f then Inr (pos f) else Inl OSError)"

lemma next_line_advances:
  assumes "next_line f = (Some line, f')"
  shows "length (content f') - pos f' < length (content f) - pos f"
proof -
  let ?rest = "drop (pos f) (content f)"
  let ?body = "takeWhile (\<lambda>c. c \<noteq> CHR 0x0A) ?rest"
  have le: "length ?body \<le> length ?rest"
    by (rule length_takeWhile_le)
  from assms have ne: "pos f < length (content f)"
    by (auto simp: next_line_def Let_def split: if_splits)
  show ?thesis
  proof (cases "length ?body < length ?rest")
    case True
    with assms ne have "f' = f\<lparr>pos := pos f + Suc (length ?body), telling := False\<rparr>"
      by (auto simp: next_line_def Let_def)
    with True ne show ?thesis by simp
  next
    case False
    with assms ne have "f' = f\<lparr>pos := pos f + length ?body, telling := False\<rparr>"
      by (auto simp: next_line_def Let_def)
    moreover from False le have "length ?body = length (content f) - pos f" by simp
    ultimately show ?thesis using ne by simp
  qed
qed

section \<open>consume\_messages\_from\_file (lines 157 to 212)\<close>

text \<open>
  \<open>time.sleep\<close> raises \<open>ValueError\<close> on a negative length.
\<close>

definition sleep :: "int \<Rightarrow> state \<Rightarrow> exn option \<times> state" where
  "sleep secs st = (if secs < 0 then (Some ValueError, st) else (None, st\<lparr>slept := slept st @ [secs]\<rparr>))"

text \<open>
  The body of the \<open>for\<close> loop, lines 189 to 202, on one line the iterator returned. The
  result is the exception that leaves the body (if any), the value of \<open>last_position\<close>
  and the state. \<open>f\<close> is the file object after the iterator's step.
\<close>

definition for_body ::
  "env \<Rightarrow> text_file \<Rightarrow> string \<Rightarrow> nat \<Rightarrow> state \<Rightarrow> exn option \<times> nat \<times> state" where
  "for_body e f line last_position st =
     (if strip line = [] then (None, last_position, st)
      else
        (case json_loads e (strip line) of
           Inl x \<Rightarrow> (Some x, last_position, st)
         | Inr raw \<Rightarrow>
             (case process_message e raw st of
                (None, st1) \<Rightarrow>
                  (case tell f of
                     Inl x \<Rightarrow> (Some x, last_position, st1)
                   | Inr p \<Rightarrow> (None, p, st1))
              | (Some processed, st1) \<Rightarrow>
                  (case insert_insight e processed (insert_message e processed st1) of
                     (Some x, st2) \<Rightarrow> (Some x, last_position, st2)
                   | (None, st2) \<Rightarrow>
                       (case tell f of
                          Inl x \<Rightarrow> (Some x, last_position, st2)
                        | Inr p \<Rightarrow> (None, p, st2))))))"

function for_loop :: "env \<Rightarrow> text_file \<Rightarrow> nat \<Rightarrow> state \<Rightarrow> exn option \<times> nat \<times> state" where
  "for_loop e f last_position st =
     (case next_line f of
        (None, f') \<Rightarrow> (None, last_position, st)
      | (Some line, f') \<Rightarrow>
          (case for_body e f' line last_position st of
             (Some x, lp, st1) \<Rightarrow> (Some x, lp, st1)
           | (None, lp, st1) \<Rightarrow> for_loop e f' lp st1))"
  by pat_completeness auto
termination
  by (relation "measure (\<lambda>(e, f, lp, st). length (content f) - pos f)")
     (auto dest: next_line_advances [OF sym])

declare for_loop.simps [simp del]

text \<open>
  The \<open>try\<close> block of one pass of \<open>while True\<close>, lines 183 to 205: open the file (the
  outside event of this tick), seek, run the loop, sleep.
\<close>

definition try_block :: "env \<Rightarrow> int \<Rightarrow> nat \<Rightarrow> state \<Rightarrow> exn option \<times> nat \<times> state" where
  "try_block e interval_secs last_position st =
     (let st1 = logger INFO (Step3_read_from_live_data_file_at_position last_position) st;
          st2 = st1\<lparr>tick := Suc (tick st1)\<rparr>
      in case file_at e (tick st1) of
           Inl x \<Rightarrow> (Some x, last_position, st2)
         | Inr s \<Rightarrow>
             (case for_loop e (seek (open_file s) last_position) last_position st2 of
                (Some x, lp, st3) \<Rightarrow> (Some x, lp, st3)
              | (None, lp, st3) \<Rightarrow>
                  (case sleep interval_secs st3 of
                     (Some x, st4) \<Rightarrow> (Some x, lp, st4)
                   | (None, st4) \<Rightarrow> (None, lp, st4))))"

text \<open>
  How the program can stand: still in its loop when the passes counted ran out, left
  through \<open>sys.exit\<close>, left through an exception, or returned.
\<close>

datatype outcome = Running | Exit int | Raised exn | Returned

text \<open>
  One pass of \<open>while True\<close> with its two handlers: \<open>Inr\<close> carries \<open>last_position\<close> into
  the next pass, \<open>Inl\<close> leaves the loop. An exception raised by the \<open>sleep\<close> of line 209
  is raised inside a handler and leaves the function.
\<close>

definition cycle :: "env \<Rightarrow> int \<Rightarrow> nat \<Rightarrow> state \<Rightarrow> (outcome + nat) \<times> state" where
  "cycle e interval_secs last_position st =
     (case try_block e interval_secs last_position st of
        (None, lp, st1) \<Rightarrow> (Inr lp, st1)
      | (Some x, lp, st1) \<Rightarrow>
          (if x = FileNotFoundError then
             (case sleep interval_secs (logger ERROR Live_data_file_not_found st1) of
                (Some y, st2) \<Rightarrow> (Inl (Raised y), st2)
              | (None, st2) \<Rightarrow> (Inr lp, st2))
           else (Inl (Exit 11), logger ERROR (Error_reading_from_live_data_file x) st1)))"

text \<open>\<open>while True\<close>, for at most \<open>n\<close> passes.\<close>

fun while_true :: "env \<Rightarrow> nat \<Rightarrow> int \<Rightarrow> nat \<Rightarrow> state \<Rightarrow> outcome \<times> state" where
  "while_true e 0 interval_secs last_position st = (Running, st)"
| "while_true e (Suc n) interval_secs last_position st =
     (case cycle e interval_secs last_position st of
        (Inl out, st1) \<Rightarrow> (out, st1)
      | (Inr lp, st1) \<Rightarrow> while_true e n interval_secs lp st1)"

definition consume_messages_from_file ::
  "env \<Rightarrow> nat \<Rightarrow> int \<Rightarrow> nat \<Rightarrow> state \<Rightarrow> outcome \<times> state" where
  "consume_messages_from_file e n interval_secs last_position st =
     (let st1 = logger INFO Step1_initialize_the_database
                  (logger INFO (Arg_last_position last_position)
                    (logger INFO (Arg_interval_secs interval_secs)
                      (logger INFO Arg_sql_path
                        (logger INFO Arg_live_data_path
                          (logger INFO Called_consume_messages_from_file st)))))
      in case init_db e st1 of
           (Some x, st2) \<Rightarrow> (Raised x, st2)
         | (None, st2) \<Rightarrow>
             (case init_insights_db e st2 of
                (Some x, st3) \<Rightarrow> (Raised x, st3)
              | (None, st3) \<Rightarrow>
                  (let st4 = logger INFO Step2_set_the_last_position_to_0 st3;
                       last_position = 0
                   in while_true e n interval_secs last_position st4)))"

section \<open>main (lines 219 to 265)\<close>

text \<open>
  \<open>sys.exit\<close> raises \<open>SystemExit\<close>, which is not an \<open>Exception\<close>: it passes the handler
  of line 262, the \<open>finally\<close> clause logs, and the process ends with that code. Any
  \<open>Exception\<close> out of \<open>consume_messages_from_file\<close> is logged and \<open>main\<close> returns.
  Deleting the database file removes every row.
\<close>

definition main :: "env \<Rightarrow> nat \<Rightarrow> state \<Rightarrow> outcome \<times> state" where
  "main e n st =
     (let st1 = logger INFO STEP1_read_environment_variables
                  (logger INFO Moved_env_variables
                    (logger INFO Things_can_fail
                      (logger INFO Starting_consumer st)))
      in case config_read e of
           Inl x \<Rightarrow> (Exit 1, logger ERROR (Failed_to_read_environment_variables x) st1)
         | Inr interval_secs \<Rightarrow>
             (let st2 = logger INFO STEP2_delete_any_prior_database_file
                          (logger INFO SUCCESS_read_environment_variables st1);
                  deleted =
                    (if db_file st2 then
                       (case unlink_fault e of
                          Some x \<Rightarrow> Inl x
                        | None \<Rightarrow>
                            Inr (logger INFO SUCCESS_deleted_database_file
                                   (st2\<lparr>db_file := False, primary := [], insights := []\<rparr>)))
                     else Inr st2)
              in case deleted of
                   Inl x \<Rightarrow> (Exit 2, logger ERROR (Failed_to_delete_db_file x) st2)
                 | Inr st3 \<Rightarrow>
                     (let st4 = logger INFO STEP3_initialize_a_new_database st3;
                          (r, st5) =
                            (case init_db e st4 of
                               (Some x, st') \<Rightarrow> (Some x, st')
                             | (None, st') \<Rightarrow> init_insights_db e st')
                      in case r of
                           Some x \<Rightarrow> (Exit 3, logger ERROR (Failed_to_create_db_table x) st5)
                         | None \<Rightarrow>
                             (case consume_messages_from_file e n interval_secs 0
                                     (logger INFO STEP4_begin_consuming st5) of
                                (Raised x, st6) \<Rightarrow>
                                  (Returned, logger INFO Consumer_shutting_down
                                               (logger ERROR (Unexpected_error x) st6))
                              | (Running, st6) \<Rightarrow> (Running, st6)
                              | (out, st6) \<Rightarrow> (out, logger INFO Consumer_shutting_down st6)))))"

section \<open>Sample data and proof devices\<close>

text \<open>
  A sample environment for the concrete examples below. Its \<open>json.loads\<close> is given on
  the texts the examples parse: \<open>{}\<close> (an empty dict), \<open>[1]\<close> (a list) and
  \<open>null_sentiment_line\<close> (a dict whose sentiment is \<open>None\<close>), which are valid JSON;
  the only other text the examples hand to it is \<open>{bad\<close>, which is not. Its
  \<open>float\<close> and \<open>int\<close> of a str are never reached by the examples. No
  database operation fails, the live data file is absent, and the interval is one
  second.
\<close>

definition null_sentiment_line :: string where
  \<open>null_sentiment_line = ''{"sentiment": null}''\<close>

definition sample_loads :: "string \<Rightarrow> exn + json" where
  "sample_loads s =
     (if s = ''{}'' then Inr (JObj [])
      else if s = ''[1]'' then Inr (JArr [JInt 1])
      else if s = null_sentiment_line then Inr (JObj [(''sentiment'', JNull)])
      else Inl JSONDecodeError)"

definition sample_env :: env where
  "sample_env =
     \<lparr>json_loads = sample_loads,
      float_of_str = (\<lambda>s. Inl ValueError),
      float_of_int = (\<lambda>i. Inr (Finite (of_int i))),
      int_of_str = (\<lambda>s. Inl ValueError),
      utcnow = (\<lambda>t. ''2025-01-29T14:35:20''),
      file_at = (\<lambda>t. Inl FileNotFoundError),
      primary_fault = (\<lambda>t. None),
      insight_fault = (\<lambda>t. None),
      init_db_fault = (\<lambda>t. None),
      init_insights_fault = (\<lambda>t. None),
      config_read = Inr 1,
      unlink_fault = None\<rparr>"

definition state0 :: state where
  "state0 = \<lparr>primary = [], insights = [], logs = [], tick = 0, primary_attempts = 0,
             insight_attempts = 0, slept = [], db_file = False\<rparr>"

definition with_sentiment :: "real \<Rightarrow> json" where
  "with_sentiment x = JObj [(''message'', JStr ''a  b''), (''sentiment'', JFloat (Finite x))]"

definition with_message :: "string \<Rightarrow> json" where
  "with_message t = JObj [(''message'', JStr t)]"

text \<open>
  The token starts of a text, counted from left to right; \<open>b\<close> tells whether a token
  may start at the head of the text.
\<close>

fun token_starts :: "bool \<Rightarrow> string \<Rightarrow> nat" where
  "token_starts b [] = 0"
| "token_starts b (c # cs) = (if \<not> isspace c \<and> b then 1 else 0) + token_starts (isspace c) cs"

text \<open>The sample environment with every INSERT into \<open>insights_pinkston\<close> failing.\<close>

definition faulty_env :: env where
  "faulty_env = sample_env\<lparr>insight_fault := (\<lambda>t. Some DatabaseError)\<rparr>"

text \<open>
  Live data files: a valid line, a malformed line and a valid line; a malformed line
  followed by a valid one. \<open>env_with_file\<close> is the sample environment in which every
  \<open>open\<close> finds the given text.
\<close>

definition three_lines :: string where
  "three_lines = ''{}'' @ [CHR 0x0A] @ ''{bad'' @ [CHR 0x0A] @ ''{}'' @ [CHR 0x0A]"

definition malformed_first :: string where
  "malformed_first = ''{bad'' @ [CHR 0x0A] @ ''{}'' @ [CHR 0x0A]"

definition env_with_file :: "string \<Rightarrow> env" where
  "env_with_file s = sample_env\<lparr>file_at := (\<lambda>t. Inr s)\<rparr>"

text \<open>
  Live data files whose last line has no newline yet: that line alone, and two complete
  lines followed by it.
\<close>

definition partial_only :: string where
  "partial_only = ''{}''"

definition two_and_partial :: string where
  "two_and_partial = ''{}'' @ [CHR 0x0A] @ ''{}'' @ [CHR 0x0A] @ ''{''"

text \<open>A live data file of one complete line.\<close>

definition one_line :: string where
  "one_line = ''{}'' @ [CHR 0x0A]"

text \<open>
  The sample environment in which the third database initialization fails: the first
  \<open>init_db\<close> that \<open>consume_messages_from_file\<close> runs after the two of \<open>main\<close>.
\<close>

definition env_reinit_fails :: env where
  "env_reinit_fails =
     sample_env\<lparr>init_db_fault := (\<lambda>t. if t = 2 then Some DatabaseError else None)\<rparr>"

text \<open>
  For the proofs about the log: a state with log lines put in front of its log, the six
  lines \<open>consume_messages_from_file\<close> logs first (lines 168 to 174), and what the
  function does after them (lines 175 to 212).
\<close>

definition prepend_logs :: "(level \<times> msg) list \<Rightarrow> state \<Rightarrow> state" where
  "prepend_logs L st = st\<lparr>logs := L @ logs st\<rparr>"

definition header :: "int \<Rightarrow> nat \<Rightarrow> (level \<times> msg) list" where
  "header iv lp =
     [(INFO, Called_consume_messages_from_file), (INFO, Arg_live_data_path), (INFO, Arg_sql_path),
      (INFO, Arg_interval_secs iv), (INFO, Arg_last_position lp),
      (INFO, Step1_initialize_the_database)]"

definition after_header :: "env \<Rightarrow> nat \<Rightarrow> int \<Rightarrow> state \<Rightarrow> outcome \<times> state" where
  "after_header e n iv st1 =
     (case init_db e st1 of
        (Some x, st2) \<Rightarrow> (Raised x, st2)
      | (None, st2) \<Rightarrow>
          (case init_insights_db e st2 of
             (Some x, st3) \<Rightarrow> (Raised x, st3)
           | (None, st3) \<Rightarrow> while_true e n iv 0 (logger INFO Step2_set_the_last_position_to_0 st3)))"

text \<open>
  The first line of a pass that is not blank, with the file object as the iterator
  leaves it: the only line of the pass that can reach \<open>json.loads\<close>.
\<close>

function first_line :: "text_file \<Rightarrow> (string \<times> text_file) option" where
  "first_line f =
     (case next_line f of
        (None, f') \<Rightarrow> None
      | (Some line, f') \<Rightarrow> (if strip line = [] then first_line f' else Some (line, f')))"
  by pat_completeness auto
termination
  by (relation "measure (\<lambda>f. length (content f) - pos f)")
     (auto dest: next_line_advances [OF sym])

declare first_line.simps [simp del]

text \<open>
  A start of \<open>main\<close> in which nothing fails before the loop: the configuration gives the
  interval, the database file is absent or is deleted, and the four initializations
  (two in \<open>main\<close>, two in \<open>consume_messages_from_file\<close>) succeed. \<open>loop_entry\<close> is
  the state in which \<open>while True\<close> is then entered, and \<open>finish\<close> is what \<open>main\<close> does
  with the outcome of \<open>consume_messages_from_file\<close> (lines 258 to 265).
\<close>

definition startup_ok :: "env \<Rightarrow> int \<Rightarrow> state \<Rightarrow> bool" where
  "startup_ok e iv st \<longleftrightarrow>
     config_read e = Inr iv \<and> (\<not> db_file st \<or> unlink_fault e = None) \<and>
     init_db_fault e (tick st) = None \<and> init_insights_fault e (tick st + 1) = None \<and>
     init_db_fault e (tick st + 2) = None \<and> init_insights_fault e (tick st + 3) = None"

definition loop_entry :: "int \<Rightarrow> state \<Rightarrow> state" where
  "loop_entry iv st =
     st\<lparr>logs := logs st @
                [(INFO, Starting_consumer), (INFO, Things_can_fail), (INFO, Moved_env_variables),
                 (INFO, STEP1_read_environment_variables),
                 (INFO, SUCCESS_read_environment_variables),
                 (INFO, STEP2_delete_any_prior_database_file)] @
                (if db_file st then [(INFO, SUCCESS_deleted_database_file)] else []) @
                [(INFO, STEP3_initialize_a_new_database), (INFO, Initialized_insights_db),
                 (INFO, STEP4_begin_consuming)] @
                header iv 0 @
                [(INFO, Initialized_insights_db), (INFO, Step2_set_the_last_position_to_0)],
        tick := tick st + 4,
        db_file := True,
        primary := (if db_file st then [] else primary st),
        insights := (if db_file st then [] else insights st)\<rparr>"

definition finish :: "outcome \<times> state \<Rightarrow> outcome \<times> state" where
  "finish r =
     (case r of
        (Raised x, st6) \<Rightarrow>
          (Returned, logger INFO Consumer_shutting_down (logger ERROR (Unexpected_error x) st6))
      | (Running, st6) \<Rightarrow> (Running, st6)
      | (out, st6) \<Rightarrow> (out, logger INFO Consumer_shutting_down st6))"


definition list_after_dict :: string where
  "list_after_dict = ''{}'' @ [CHR 0x0A] @ ''[1]'' @ [CHR 0x0A]"

section \<open>Auxiliary lemmas\<close>

lemma length_split_from:
  "length (split_from cur s) = (if cur = [] then 0 else 1) + token_starts (cur = []) s"
  by (induction s arbitrary: cur) auto

lemma upt_Suc_shift: "[0..<Suc n] = 0 # map Suc [0..<n]"
  by (simp add: upt_conv_Cons map_Suc_upt del: upt_Suc)

lemma length_filter_upt_Suc:
  "length (filter P [0..<Suc n]) = (if P 0 then 1 else 0) + length (filter (\<lambda>i. P (Suc i)) [0..<n])"
  unfolding upt_Suc_shift by (simp add: filter_map o_def)

lemma token_starts_filter:
  "length (filter (\<lambda>i. \<not> isspace (s ! i) \<and> (if i = 0 then b else isspace (s ! (i - 1)))) [0..<length s])
     = token_starts b s"
proof (induction s arbitrary: b)
  case Nil
  then show ?case by simp
next
  case (Cons c cs)
  have "(\<lambda>i. \<not> isspace ((c # cs) ! Suc i) \<and>
              (if Suc i = 0 then b else isspace ((c # cs) ! (Suc i - 1)))) =
        (\<lambda>i. \<not> isspace (cs ! i) \<and> (if i = 0 then isspace c else isspace (cs ! (i - 1))))"
    by (auto simp: nth_Cons')
  then have "length (filter (\<lambda>i. \<not> isspace ((c # cs) ! Suc i) \<and>
              (if Suc i = 0 then b else isspace ((c # cs) ! (Suc i - 1)))) [0..<length cs])
        = token_starts (isspace c) cs"
    using Cons.IH [of "isspace c"] by simp
  moreover have "length (c # cs) = Suc (length cs)" by simp
  ultimately show ?case
    unfolding \<open>length (c # cs) = Suc (length cs)\<close> length_filter_upt_Suc by auto
qed

lemma token_count_token_starts: "token_count s = token_starts True s"
proof -
  have "(\<lambda>i. \<not> isspace (s ! i) \<and> (i = 0 \<or> isspace (s ! (i - 1)))) =
        (\<lambda>i. \<not> isspace (s ! i) \<and> (if i = 0 then True else isspace (s ! (i - 1))))"
    by auto
  then show ?thesis
    unfolding token_count_def using token_starts_filter [of s True] by simp
qed

lemma length_split: "length (split s) = token_count s"
  by (simp add: split_def length_split_from token_count_token_starts)


lemma split_from_spaces: "\<forall>c\<in>set ws. isspace c \<Longrightarrow> split_from [] (ws @ s) = split_from [] s"
  by (induction ws) auto
lemma split_from_word: "\<forall>c\<in>set w. \<not> isspace c \<Longrightarrow> split_from cur (w @ s) = split_from (cur @ w) s"
  by (induction w arbitrary: cur) auto

lemma label_cases:
  "(float_gt s 0.6 \<longrightarrow> label_of s = ''high'') \<and>
   (float_ge s 0.4 \<and> float_le s 0.6 \<longrightarrow> label_of s = ''medium'') \<and>
   (float_lt s 0.4 \<longrightarrow> label_of s = ''low'')"
  by (cases s) auto

lemma process_message_Some:
  "process_message e raw st = (Some p, st') \<Longrightarrow> process_message_body e (utcnow e (tick st)) raw = Inr p"
  by (auto simp: process_message_def split: sum.splits)

lemma body_label: "process_message_body e now raw = Inr p \<Longrightarrow> sentiment_label p = label_of (sentiment p) \<and> word_count p = length (split (message p))"
  by (auto simp: process_message_body_def Let_def split: json.splits sum.splits if_splits)

lemmas pm_defs = process_message_def process_message_body_def get_def with_sentiment_def with_message_def
  sample_env_def state0_def Let_def

lemma split_spaces_only: "\<forall>c\<in>set s. isspace c \<Longrightarrow> split s = []"
  using split_from_spaces [of s "[]"] by (simp add: split_def)

lemma split_a_ws_b:
  assumes "ws \<noteq> []" and "\<forall>c\<in>set ws. isspace c"
  shows "split (''a'' @ ws @ ''b'') = [''a'', ''b'']"
proof -
  from assms obtain w ws' where ws: "ws = w # ws'" and w: "isspace w" and ws': "\<forall>c\<in>set ws'. isspace c"
    by (cases ws) auto
  have "split (''a'' @ ws @ ''b'') = split_from ''a'' (w # ws' @ ''b'')"
    by (simp add: split_def ws isspace_def)
  also have "\<dots> = ''a'' # split_from [] (ws' @ ''b'')"
    using w by simp
  also have "split_from [] (ws' @ ''b'') = split_from [] ''b''"
    using ws' by (rule split_from_spaces)
  also have "split_from [] ''b'' = [''b'']"
    by (simp add: isspace_def)
  finally show ?thesis .
qed

section \<open>The sentiment label\<close>

text \<open>
  C4. In every record \<open>process_message\<close> returns, \<open>sentiment_label\<close> is a function of the
  coerced \<open>sentiment\<close> alone: above 0.6 it is high, from 0.4 to 0.6 (both included) it is
  medium, below 0.4 it is low. So 0.6 gives medium, 0.61 high, 0.4 medium and 0.39 low.
\<close>

theorem sentiment_label_thresholds:
  assumes "process_message e raw st = (Some p, st')"
  shows "sentiment_label p = label_of (sentiment p) \<and>
         (float_gt (sentiment p) 0.6 \<longrightarrow> sentiment_label p = ''high'') \<and>
         (float_ge (sentiment p) 0.4 \<and> float_le (sentiment p) 0.6 \<longrightarrow> sentiment_label p = ''medium'') \<and>
         (float_lt (sentiment p) 0.4 \<longrightarrow> sentiment_label p = ''low'') \<and>
         (sentiment p = Finite 0.6 \<longrightarrow> sentiment_label p = ''medium'') \<and>
         (sentiment p = Finite 0.61 \<longrightarrow> sentiment_label p = ''high'') \<and>
         (sentiment p = Finite 0.4 \<longrightarrow> sentiment_label p = ''medium'') \<and>
         (sentiment p = Finite 0.39 \<longrightarrow> sentiment_label p = ''low'')"
proof -
  from assms have "process_message_body e (utcnow e (tick st)) raw = Inr p"
    by (rule process_message_Some)
  then have l: "sentiment_label p = label_of (sentiment p)"
    by (simp add: body_label)
  show ?thesis
    unfolding l using label_cases [of "sentiment p"] by auto
qed

theorem sentiment_label_thresholds_witness:
  "sentiment_label (the (fst (process_message sample_env (with_sentiment 0.6) state0))) = ''medium'' \<and>
   sentiment_label (the (fst (process_message sample_env (with_sentiment 0.61) state0))) = ''high'' \<and>
   sentiment_label (the (fst (process_message sample_env (with_sentiment 0.4) state0))) = ''medium'' \<and>
   sentiment_label (the (fst (process_message sample_env (with_sentiment 0.39) state0))) = ''low''"
proof -
  have ex: "process_message sample_env (with_sentiment x) state0 =
        (Some (the (fst (process_message sample_env (with_sentiment x) state0))),
         snd (process_message sample_env (with_sentiment x) state0))" for x
    by (simp add: pm_defs)
  have s: "sentiment (the (fst (process_message sample_env (with_sentiment x) state0))) = Finite x" for x
    by (simp add: pm_defs)
  show ?thesis
    using sentiment_label_thresholds [OF ex [of "0.6"]] sentiment_label_thresholds [OF ex [of "0.61"]]
      sentiment_label_thresholds [OF ex [of "0.4"]] sentiment_label_thresholds [OF ex [of "0.39"]]
    by (simp add: s)
qed

section \<open>The word count\<close>

text \<open>
  C5. In every record \<open>process_message\<close> returns, \<open>word_count\<close> is the number of
  whitespace-delimited tokens of the message text: 0 for an empty text and for a text of
  whitespace only, and 2 for \<open>a\<close> and \<open>b\<close> separated by a run of whitespace of any
  length.
\<close>

theorem word_count_is_token_count:
  assumes "process_message e raw st = (Some p, st')"
  shows "word_count p = token_count (message p) \<and>
         (message p = [] \<longrightarrow> word_count p = 0) \<and>
         ((\<forall>c\<in>set (message p). isspace c) \<longrightarrow> word_count p = 0) \<and>
         (\<forall>ws. ws \<noteq> [] \<and> (\<forall>c\<in>set ws. isspace c) \<and> message p = ''a'' @ ws @ ''b''
               \<longrightarrow> word_count p = 2)"
proof -
  from assms have "process_message_body e (utcnow e (tick st)) raw = Inr p"
    by (rule process_message_Some)
  then have w: "word_count p = length (split (message p))"
    by (simp add: body_label)
  have "word_count p = token_count (message p)"
    unfolding w by (rule length_split)
  moreover have "(\<forall>c\<in>set (message p). isspace c) \<longrightarrow> word_count p = 0"
    unfolding w by (simp add: split_spaces_only)
  moreover have "message p = [] \<longrightarrow> word_count p = 0"
    unfolding w by (simp add: split_def)
  moreover have "\<forall>ws. ws \<noteq> [] \<and> (\<forall>c\<in>set ws. isspace c) \<and> message p = ''a'' @ ws @ ''b''
               \<longrightarrow> word_count p = 2"
    unfolding w using split_a_ws_b by auto
  ultimately show ?thesis by blast
qed

theorem word_count_is_token_count_witness:
  "word_count (the (fst (process_message sample_env (with_message []) state0))) = 0 \<and>
   word_count (the (fst (process_message sample_env (with_message ''  '') state0))) = 0 \<and>
   word_count (the (fst (process_message sample_env (with_message ''a  b'') state0))) = 2 \<and>
   word_count (the (fst (process_message sample_env (with_message ''a b'') state0))) = 2 \<and>
   token_count ''a  b'' = 2"
proof -
  have ex: "process_message sample_env (with_message t) state0 =
        (Some (the (fst (process_message sample_env (with_message t) state0))),
         snd (process_message sample_env (with_message t) state0))" for t
    by (simp add: pm_defs)
  have m: "message (the (fst (process_message sample_env (with_message t) state0))) =
        (if t = [] then [] else t)" for t
    by (simp add: pm_defs)
  have sp: "\<forall>c\<in>set ''  ''. isspace c" "\<forall>c\<in>set '' ''. isspace c"
    by (simp_all add: isspace_def)
  note t = word_count_is_token_count [OF ex]
  have "word_count (the (fst (process_message sample_env (with_message []) state0))) = 0"
    using t [of "[]"] by (simp add: m)
  moreover have "word_count (the (fst (process_message sample_env (with_message ''  '') state0))) = 0"
    using t [of "''  ''"] sp by (simp add: m)
  moreover have "word_count (the (fst (process_message sample_env (with_message ''a  b'') state0))) = 2"
    using t [of "''a  b''"] sp by (simp add: m)
  moreover have "word_count (the (fst (process_message sample_env (with_message ''a b'') state0))) = 2"
    using t [of "''a b''"] sp by (simp add: m)
  moreover have "token_count ''a  b'' = 2"
    using t [of "''a  b''"] \<open>word_count (the (fst (process_message sample_env (with_message ''a  b'') state0))) = 2\<close>
    by (simp add: m)
  ultimately show ?thesis by blast
qed

section \<open>A sentiment that is missing or not a number\<close>

lemma body_missing_sentiment:
  "map_of d ''sentiment'' = None \<Longrightarrow> process_message_body e now (JObj d) = Inr p \<Longrightarrow>
     sentiment p = Finite 0"
  by (auto simp: process_message_body_def get_def Let_def split: json.splits sum.splits if_splits)

lemma body_bad_sentiment:
  "map_of d ''sentiment'' = Some v \<Longrightarrow> py_float e v = Inl x \<Longrightarrow>
     process_message_body e now (JObj d) = Inl x"
  by (simp add: process_message_body_def get_def Let_def)

lemma body_defaults:
  assumes "map_of d ''sentiment'' = None"
    and "get d ''message'' (JStr []) = JStr t \<or> \<not> truthy (get d ''message'' (JStr []))"
    and "map_of d ''message_length'' = None"
  shows "\<exists>p. process_message_body e now (JObj d) = Inr p"
  using assms
  by (auto simp: process_message_body_def get_def Let_def split: json.splits sum.splits option.splits)

lemma for_body_None_stores:
  assumes "process_message e raw st = (None, st1)" and "json_loads e (strip line) = Inr raw"
  shows "primary (snd (snd (for_body e f line lp st))) = primary st \<and>
         insights (snd (snd (for_body e f line lp st))) = insights st"
  using assms
  by (auto simp: for_body_def process_message_def logger_def split: sum.splits)

text \<open>
  C3 says a sentiment that is missing or not coercible to a number is replaced by 0.0 and
  the record is kept. The default of \<open>get\<close> at line 54 covers the missing key only. On a
  sentiment that is present and not coercible, here JSON's \<open>null\<close>, \<open>float\<close> raises
  inside the \<open>try\<close>, the handler of line 79 returns \<open>None\<close>, and no record exists.
\<close>

theorem sentiment_not_coercible_counterexample:
  "py_float sample_env JNull = Inl TypeError \<and>
   fst (process_message sample_env (JObj [(''sentiment'', JNull)]) state0) = None \<and>
   \<not> (\<exists>p st'. process_message sample_env (JObj [(''sentiment'', JNull)]) state0 = (Some p, st'))"
  by (simp add: pm_defs)

text \<open>
  C3 as amended. For a dict without the key \<open>sentiment\<close>, every record
  \<open>process_message\<close> returns has sentiment 0.0, and it returns one when the message is
  a str or falsy and \<open>message_length\<close> is missing too. For a dict whose sentiment is
  present and on which \<open>float\<close> raises, \<open>process_message\<close> logs the exception at error
  level and returns \<open>None\<close>, and the loop body that parsed the line inserts no row.
\<close>

theorem sentiment_default_only_when_missing:
  "(map_of d ''sentiment'' = None \<and> process_message e (JObj d) st = (Some p, st') \<longrightarrow>
      sentiment p = Finite 0) \<and>
   (map_of d ''sentiment'' = None \<and> map_of d ''message_length'' = None \<and>
    (get d ''message'' (JStr []) = JStr t \<or> \<not> truthy (get d ''message'' (JStr []))) \<longrightarrow>
      (\<exists>q st1. process_message e (JObj d) st = (Some q, st1) \<and> sentiment q = Finite 0)) \<and>
   (map_of d ''sentiment'' = Some v \<and> py_float e v = Inl x \<longrightarrow>
      process_message e (JObj d) st = (None, logger ERROR (Error_processing_message x) st) \<and>
      (json_loads e (strip line) = Inr (JObj d) \<longrightarrow>
         primary (snd (snd (for_body e f line lp st))) = primary st \<and>
         insights (snd (snd (for_body e f line lp st))) = insights st))"
proof (intro conjI impI)
  assume "map_of d ''sentiment'' = None \<and> process_message e (JObj d) st = (Some p, st')"
  then show "sentiment p = Finite 0"
    using body_missing_sentiment process_message_Some by blast
next
  assume a: "map_of d ''sentiment'' = None \<and> map_of d ''message_length'' = None \<and>
    (get d ''message'' (JStr []) = JStr t \<or> \<not> truthy (get d ''message'' (JStr [])))"
  then obtain q where q: "process_message_body e (utcnow e (tick st)) (JObj d) = Inr q"
    using body_defaults by blast
  with a have "sentiment q = Finite 0"
    using body_missing_sentiment by blast
  with q show "\<exists>q st1. process_message e (JObj d) st = (Some q, st1) \<and> sentiment q = Finite 0"
    by (simp add: process_message_def)
next
  assume a: "map_of d ''sentiment'' = Some v \<and> py_float e v = Inl x"
  then show pm: "process_message e (JObj d) st = (None, logger ERROR (Error_processing_message x) st)"
    by (simp add: process_message_def body_bad_sentiment)
  assume "json_loads e (strip line) = Inr (JObj d)"
  with pm show "primary (snd (snd (for_body e f line lp st))) = primary st"
    and "insights (snd (snd (for_body e f line lp st))) = insights st"
    using for_body_None_stores by blast+
qed

theorem sentiment_default_only_when_missing_witness:
  "(\<exists>q st1. process_message sample_env (JObj []) state0 = (Some q, st1) \<and> sentiment q = Finite 0) \<and>
   process_message sample_env (JObj [(''sentiment'', JNull)]) state0 =
     (None, logger ERROR (Error_processing_message TypeError) state0) \<and>
   primary (snd (snd (for_body sample_env (open_file null_sentiment_line) null_sentiment_line 0 state0))) = [] \<and>
   insights (snd (snd (for_body sample_env (open_file null_sentiment_line) null_sentiment_line 0 state0))) = [] \<and>
   sentiment (the (fst (process_message sample_env (JObj []) state0))) = Finite 0"
proof -
  have ex: "process_message sample_env (JObj []) state0 =
        (Some (the (fst (process_message sample_env (JObj []) state0))),
         snd (process_message sample_env (JObj []) state0))"
    by (simp add: pm_defs)
  note t = sentiment_default_only_when_missing
  have 1: "sentiment (the (fst (process_message sample_env (JObj []) state0))) = Finite 0"
    using t [of "[]" sample_env state0 "the (fst (process_message sample_env (JObj []) state0))"
        "snd (process_message sample_env (JObj []) state0)"] ex
    by simp
  have 2: "\<exists>q st1. process_message sample_env (JObj []) state0 = (Some q, st1) \<and> sentiment q = Finite 0"
    using t [of "[]" sample_env state0 _ _ "[]"] by (simp add: get_def)
  have 3: "process_message sample_env (JObj [(''sentiment'', JNull)]) state0 =
     (None, logger ERROR (Error_processing_message TypeError) state0)"
    using t [of "[(''sentiment'', JNull)]" sample_env state0 _ _ _ JNull TypeError] by simp
  have l: "json_loads sample_env (strip null_sentiment_line) = Inr (JObj [(''sentiment'', JNull)])"
    by (simp add: sample_env_def sample_loads_def strip_def isspace_def null_sentiment_line_def)
  have 4: "primary (snd (snd (for_body sample_env (open_file null_sentiment_line) null_sentiment_line 0 state0))) = [] \<and>
   insights (snd (snd (for_body sample_env (open_file null_sentiment_line) null_sentiment_line 0 state0))) = []"
    using t [of "[(''sentiment'', JNull)]" sample_env state0 _ _ _ JNull TypeError null_sentiment_line
        "open_file null_sentiment_line" 0] l
    by (simp add: state0_def)
  show ?thesis using 1 2 3 4 by blast
qed

section \<open>A failed insert into the insight store\<close>

lemma insert_insight_returns: "fst (insert_insight e p st) = None"
  by (simp add: insert_insight_def insert_insight_body_def Let_def split: option.splits)

lemma insert_insight_counts:
  "insight_attempts (snd (insert_insight e p st)) = Suc (insight_attempts st) \<and>
   primary_attempts (snd (insert_insight e p st)) = primary_attempts st \<and>
   primary (snd (insert_insight e p st)) = primary st"
  by (simp add: insert_insight_def insert_insight_body_def logger_def Let_def split: option.splits)

lemma insert_insight_fault:
  "insight_fault e (tick st) = Some x \<Longrightarrow>
     insert_insight e p st =
       (None, logger ERROR (Failed_to_insert_insight x)
                (st\<lparr>tick := Suc (tick st), insight_attempts := Suc (insight_attempts st)\<rparr>))"
  by (simp add: insert_insight_def insert_insight_body_def Let_def)

lemma insert_message_counts:
  "primary_attempts (insert_message e p st) = Suc (primary_attempts st) \<and>
   insight_attempts (insert_message e p st) = insight_attempts st \<and>
   insights (insert_message e p st) = insights st"
  by (simp add: insert_message_def logger_def Let_def split: option.splits)

lemma process_message_counts:
  "process_message e raw st = (r, st1) \<Longrightarrow>
     primary_attempts st1 = primary_attempts st \<and> insight_attempts st1 = insight_attempts st \<and>
     primary st1 = primary st \<and> insights st1 = insights st"
  by (auto simp: process_message_def logger_def split: sum.splits)

lemma for_body_record:
  assumes "strip line \<noteq> []" and "json_loads e (strip line) = Inr raw"
    and "process_message e raw st = (Some p, st1)"
  shows "for_body e f line lp st =
           (case tell f of
              Inl x \<Rightarrow> (Some x, lp, snd (insert_insight e p (insert_message e p st1)))
            | Inr n \<Rightarrow> (None, n, snd (insert_insight e p (insert_message e p st1))))"
proof -
  obtain st2 where i: "insert_insight e p (insert_message e p st1) = (None, st2)"
    using insert_insight_returns [of e p "insert_message e p st1"]
    by (cases "insert_insight e p (insert_message e p st1)") simp
  show ?thesis
    using assms by (simp add: for_body_def i split: sum.splits)
qed

text \<open>
  C9. \<open>insert_insight\<close> never raises: whatever the record and the fault, it returns
  normally after exactly one INSERT attempt; on a fault the exception is logged at error
  level and no row is added. In the loop body a parsed line that yields a record makes
  exactly one attempt at each sink, and whether the body raises is decided by \<open>tell\<close>
  alone, not by the outcome of the writes: a failed write neither stops the pass nor is
  tried again.
\<close>

theorem insert_insight_failure_logged_not_raised:
  "fst (insert_insight e p st) = None \<and>
   insight_attempts (snd (insert_insight e p st)) = Suc (insight_attempts st) \<and>
   (insight_fault e (tick st) = Some x \<longrightarrow>
      logs (snd (insert_insight e p st)) = logs st @ [(ERROR, Failed_to_insert_insight x)] \<and>
      insights (snd (insert_insight e p st)) = insights st) \<and>
   (strip line \<noteq> [] \<and> json_loads e (strip line) = Inr raw \<and>
    process_message e raw st = (Some p, st1) \<longrightarrow>
      fst (for_body e f line lp st) = (case tell f of Inl y \<Rightarrow> Some y | Inr n \<Rightarrow> None) \<and>
      primary_attempts (snd (snd (for_body e f line lp st))) = Suc (primary_attempts st) \<and>
      insight_attempts (snd (snd (for_body e f line lp st))) = Suc (insight_attempts st))"
proof (intro conjI impI)
  show "fst (insert_insight e p st) = None"
    by (rule insert_insight_returns)
  show "insight_attempts (snd (insert_insight e p st)) = Suc (insight_attempts st)"
    by (simp add: insert_insight_counts)
next
  assume "insight_fault e (tick st) = Some x"
  then have "insert_insight e p st =
       (None, logger ERROR (Failed_to_insert_insight x)
                (st\<lparr>tick := Suc (tick st), insight_attempts := Suc (insight_attempts st)\<rparr>))"
    by (rule insert_insight_fault)
  then show "logs (snd (insert_insight e p st)) = logs st @ [(ERROR, Failed_to_insert_insight x)]"
    and "insights (snd (insert_insight e p st)) = insights st"
    by (simp_all add: logger_def)
next
  assume a: "strip line \<noteq> [] \<and> json_loads e (strip line) = Inr raw \<and>
    process_message e raw st = (Some p, st1)"
  then have fb: "for_body e f line lp st =
           (case tell f of
              Inl x \<Rightarrow> (Some x, lp, snd (insert_insight e p (insert_message e p st1)))
            | Inr n \<Rightarrow> (None, n, snd (insert_insight e p (insert_message e p st1))))"
    using for_body_record by blast
  from a have c: "primary_attempts st1 = primary_attempts st" "insight_attempts st1 = insight_attempts st"
    using process_message_counts by blast+
  show "fst (for_body e f line lp st) = (case tell f of Inl y \<Rightarrow> Some y | Inr n \<Rightarrow> None)"
    unfolding fb by (simp split: sum.splits)
  show "primary_attempts (snd (snd (for_body e f line lp st))) = Suc (primary_attempts st)"
    unfolding fb by (simp add: insert_insight_counts insert_message_counts c split: sum.splits)
  show "insight_attempts (snd (snd (for_body e f line lp st))) = Suc (insight_attempts st)"
    unfolding fb by (simp add: insert_insight_counts insert_message_counts c split: sum.splits)
qed

theorem insert_insight_failure_logged_not_raised_witness:
  "fst (insert_insight faulty_env (the (fst (process_message faulty_env (JObj []) state0))) state0) = None \<and>
   logs (snd (insert_insight faulty_env (the (fst (process_message faulty_env (JObj []) state0))) state0))
     = [(ERROR, Failed_to_insert_insight DatabaseError)] \<and>
   insights (snd (insert_insight faulty_env (the (fst (process_message faulty_env (JObj []) state0))) state0)) = [] \<and>
   fst (for_body faulty_env (snd (next_line (open_file ''{}''))) ''{}'' 0 state0) = Some OSError \<and>
   primary_attempts (snd (snd (for_body faulty_env (snd (next_line (open_file ''{}''))) ''{}'' 0 state0))) = 1 \<and>
   insight_attempts (snd (snd (for_body faulty_env (snd (next_line (open_file ''{}''))) ''{}'' 0 state0))) = 1"
proof -
  let ?p = "the (fst (process_message faulty_env (JObj []) state0))"
  let ?f = "snd (next_line (open_file ''{}''))"
  have ex: "process_message faulty_env (JObj []) state0 =
     (Some ?p, snd (process_message faulty_env (JObj []) state0))"
    by (simp add: pm_defs faulty_env_def)
  have l: "strip ''{}'' \<noteq> [] \<and> json_loads faulty_env (strip ''{}'') = Inr (JObj [])"
    by (simp add: faulty_env_def sample_env_def sample_loads_def strip_def isspace_def)
  have fl: "insight_fault faulty_env (tick state0) = Some DatabaseError"
    by (simp add: faulty_env_def)
  have tl: "tell ?f = Inl OSError"
    by (simp add: tell_def next_line_def open_file_def Let_def)
  note t = insert_insight_failure_logged_not_raised [of faulty_env ?p state0 DatabaseError "''{}''"
      "JObj []" "snd (process_message faulty_env (JObj []) state0)" ?f 0]
  show ?thesis
    using t ex l fl tl by (simp add: state0_def)
qed

section \<open>A live data file that does not exist\<close>

lemma try_block_open_fails:
  "file_at e (tick st) = Inl x \<Longrightarrow>
     try_block e iv lp st =
       (Some x, lp, st\<lparr>logs := logs st @ [(INFO, Step3_read_from_live_data_file_at_position lp)],
                         tick := Suc (tick st)\<rparr>)"
  by (simp add: try_block_def logger_def Let_def)

lemma cycle_absent:
  assumes "file_at e (tick st) = Inl FileNotFoundError" and "0 \<le> iv"
  shows "cycle e iv lp st =
           (Inr lp, st\<lparr>logs := logs st @ [(INFO, Step3_read_from_live_data_file_at_position lp),
                                            (ERROR, Live_data_file_not_found)],
                        tick := Suc (tick st),
                        slept := slept st @ [iv]\<rparr>)"
  using assms by (simp add: cycle_def try_block_open_fails sleep_def logger_def)

lemma while_true_absent:
  assumes "0 \<le> iv"
  shows "(\<forall>k<n. file_at e (tick st + k) = Inl FileNotFoundError) \<Longrightarrow>
     fst (while_true e n iv lp st) = Running \<and>
     primary (snd (while_true e n iv lp st)) = primary st \<and>
     insights (snd (while_true e n iv lp st)) = insights st \<and>
     slept (snd (while_true e n iv lp st)) = slept st @ replicate n iv"
proof (induction n arbitrary: st)
  case 0
  then show ?case by simp
next
  case (Suc n)
  let ?st = "st\<lparr>logs := logs st @ [(INFO, Step3_read_from_live_data_file_at_position lp),
                                            (ERROR, Live_data_file_not_found)],
                        tick := Suc (tick st),
                        slept := slept st @ [iv]\<rparr>"
  from Suc.prems have 0: "file_at e (tick st) = Inl FileNotFoundError"
    by (metis add.right_neutral zero_less_Suc)
  have c: "cycle e iv lp st = (Inr lp, ?st)"
    using 0 assms by (rule cycle_absent)
  have "\<forall>k<n. file_at e (tick ?st + k) = Inl FileNotFoundError"
    using Suc.prems by (auto simp: less_Suc_eq_0_disj)
  from Suc.IH [OF this] show ?case
    by (simp add: c replicate_app_Cons_same)
qed

text \<open>
  C7. When \<open>open\<close> finds no file at the start of a pass and the interval is not
  negative, the pass writes no row, logs the condition, sleeps for the interval and hands
  \<open>last_position\<close> unchanged to the next pass, which runs as any other; as long as the
  file stays absent the loop keeps running and never exits.
\<close>

theorem absent_file_is_transient:
  assumes "file_at e (tick st) = Inl FileNotFoundError" and "0 \<le> interval_secs"
  shows "cycle e interval_secs last_position st =
           (Inr last_position,
            st\<lparr>logs := logs st @ [(INFO, Step3_read_from_live_data_file_at_position last_position),
                                  (ERROR, Live_data_file_not_found)],
               tick := Suc (tick st),
               slept := slept st @ [interval_secs]\<rparr>) \<and>
         while_true e (Suc n) interval_secs last_position st =
           while_true e n interval_secs last_position (snd (cycle e interval_secs last_position st)) \<and>
         ((\<forall>k<m. file_at e (tick st + k) = Inl FileNotFoundError) \<longrightarrow>
            fst (while_true e m interval_secs last_position st) = Running \<and>
            primary (snd (while_true e m interval_secs last_position st)) = primary st \<and>
            insights (snd (while_true e m interval_secs last_position st)) = insights st \<and>
            slept (snd (while_true e m interval_secs last_position st)) = slept st @ replicate m interval_secs)"
proof (intro conjI impI)
  show c: "cycle e interval_secs last_position st =
           (Inr last_position,
            st\<lparr>logs := logs st @ [(INFO, Step3_read_from_live_data_file_at_position last_position),
                                  (ERROR, Live_data_file_not_found)],
               tick := Suc (tick st),
               slept := slept st @ [interval_secs]\<rparr>)"
    using assms by (rule cycle_absent)
  show "while_true e (Suc n) interval_secs last_position st =
           while_true e n interval_secs last_position (snd (cycle e interval_secs last_position st))"
    by (simp add: c)
next
  assume a: "\<forall>k<m. file_at e (tick st + k) = Inl FileNotFoundError"
  note w = while_true_absent [OF assms(2) a, of last_position]
  from w show "fst (while_true e m interval_secs last_position st) = Running" by simp
  from w show "primary (snd (while_true e m interval_secs last_position st)) = primary st" by simp
  from w show "insights (snd (while_true e m interval_secs last_position st)) = insights st" by simp
  from w show "slept (snd (while_true e m interval_secs last_position st)) = slept st @ replicate m interval_secs" by simp
qed

theorem absent_file_is_transient_witness:
  "cycle sample_env 1 0 state0 =
     (Inr 0, state0\<lparr>logs := [(INFO, Step3_read_from_live_data_file_at_position 0),
                              (ERROR, Live_data_file_not_found)],
                     tick := 1, slept := [1]\<rparr>) \<and>
   fst (while_true sample_env 3 1 0 state0) = Running \<and>
   primary (snd (while_true sample_env 3 1 0 state0)) = [] \<and>
   insights (snd (while_true sample_env 3 1 0 state0)) = [] \<and>
   slept (snd (while_true sample_env 3 1 0 state0)) = [1, 1, 1]"
proof -
  have a: "file_at sample_env (tick state0) = Inl FileNotFoundError"
    by (simp add: sample_env_def)
  have b: "\<forall>k<3. file_at sample_env (tick state0 + k) = Inl FileNotFoundError"
    by (simp add: sample_env_def)
  have i: "(0::int) \<le> 1" by simp
  have r: "replicate 3 (1::int) = [1, 1, 1]"
    by (simp add: numeral_3_eq_3)
  note t = absent_file_is_transient [OF a i, of 0 0 3]
  from t have 1: "cycle sample_env 1 0 state0 =
     (Inr 0, state0\<lparr>logs := [(INFO, Step3_read_from_live_data_file_at_position 0),
                              (ERROR, Live_data_file_not_found)],
                     tick := 1, slept := [1]\<rparr>)"
    by (simp add: state0_def)
  from t b have 2: "fst (while_true sample_env 3 1 0 state0) = Running \<and>
   primary (snd (while_true sample_env 3 1 0 state0)) = primary state0 \<and>
   insights (snd (while_true sample_env 3 1 0 state0)) = insights state0 \<and>
   slept (snd (while_true sample_env 3 1 0 state0)) = slept state0 @ replicate 3 1"
    by blast
  show ?thesis
    using 1 2 unfolding r by (simp add: state0_def)
qed

section \<open>The read loop\<close>

text \<open>
  Inside the loop the iterator has switched telling off, so the \<open>tell\<close> of line 202
  raises. A blank line is skipped; the first line that is not blank ends the loop, by the
  exception of \<open>json.loads\<close> or by that of \<open>tell\<close>.
\<close>

lemma next_line_telling:
  "next_line f = (Some line, f') \<Longrightarrow> tell f' = Inl OSError"
  by (auto simp: next_line_def tell_def Let_def split: if_splits)

lemma for_loop_eof:
  "next_line f = (None, f') \<Longrightarrow> for_loop e f lp st = (None, lp, st)"
  by (simp add: for_loop.simps)

lemma for_body_blank:
  "strip line = [] \<Longrightarrow> for_body e f line lp st = (None, lp, st)"
  by (simp add: for_body_def)

lemma for_loop_blank:
  "next_line f = (Some line, f') \<Longrightarrow> strip line = [] \<Longrightarrow>
     for_loop e f lp st = for_loop e f' lp st"
  by (simp add: for_loop.simps [of e f] for_body_blank)

lemma for_body_malformed:
  "strip line \<noteq> [] \<Longrightarrow> json_loads e (strip line) = Inl x \<Longrightarrow>
     for_body e f line lp st = (Some x, lp, st)"
  by (simp add: for_body_def)

lemma for_body_raises:
  assumes "strip line \<noteq> []" and "tell f = Inl y"
  shows "\<exists>x st'. for_body e f line lp st = (Some x, lp, st')"
proof (cases "json_loads e (strip line)")
  case (Inl x)
  with assms show ?thesis by (simp add: for_body_malformed)
next
  case (Inr raw)
  obtain r st1 where pm: "process_message e raw st = (r, st1)"
    by (cases "process_message e raw st")
  show ?thesis
  proof (cases r)
    case None
    with assms Inr pm show ?thesis by (simp add: for_body_def)
  next
    case (Some p)
    with assms Inr pm show ?thesis
      by (simp add: for_body_record)
  qed
qed

lemma for_loop_first:
  assumes "next_line f = (Some line, f')" and "strip line \<noteq> []"
  shows "for_loop e f lp st = for_body e f' line lp st"
proof -
  from assms(1) have "tell f' = Inl OSError" by (rule next_line_telling)
  with assms(2) obtain x st' where "for_body e f' line lp st = (Some x, lp, st')"
    using for_body_raises by blast
  with assms(1) show ?thesis
    by (simp add: for_loop.simps [of e f])
qed

lemma try_block_first:
  assumes "file_at e (tick st) = Inr s"
    and "next_line (seek (open_file s) lp) = (Some line, f')" and "strip line \<noteq> []"
  shows "try_block e iv lp st =
           for_body e f' line lp
             (st\<lparr>logs := logs st @ [(INFO, Step3_read_from_live_data_file_at_position lp)],
                 tick := Suc (tick st)\<rparr>)"
proof -
  let ?st = "st\<lparr>logs := logs st @ [(INFO, Step3_read_from_live_data_file_at_position lp)],
                 tick := Suc (tick st)\<rparr>"
  from assms(2) have "tell f' = Inl OSError" by (rule next_line_telling)
  with assms(3) obtain x st' where b: "for_body e f' line lp ?st = (Some x, lp, st')"
    using for_body_raises by blast
  have "for_loop e (seek (open_file s) lp) lp ?st = for_body e f' line lp ?st"
    using assms(2,3) by (rule for_loop_first)
  with assms(1) b show ?thesis
    by (simp add: try_block_def logger_def Let_def)
qed

lemma cycle_fatal:
  "try_block e iv lp st = (Some x, lp', st') \<Longrightarrow> x \<noteq> FileNotFoundError \<Longrightarrow>
     cycle e iv lp st = (Inl (Exit 11), logger ERROR (Error_reading_from_live_data_file x) st')"
  by (simp add: cycle_def)

lemma cycle_outcomes:
  "fst (cycle e iv lp st) = Inl out \<Longrightarrow> out = Exit 11 \<or> (\<exists>x. out = Raised x)"
  by (auto simp: cycle_def split: prod.splits option.splits if_splits)

lemma while_true_outcomes:
  "fst (while_true e n iv lp st) = Running \<or> fst (while_true e n iv lp st) = Exit 11 \<or>
   (\<exists>x. fst (while_true e n iv lp st) = Raised x)"
proof (induction n arbitrary: lp st)
  case 0
  then show ?case by simp
next
  case (Suc n)
  obtain r st1 where c: "cycle e iv lp st = (r, st1)"
    by (cases "cycle e iv lp st")
  show ?case
  proof (cases r)
    case (Inl out)
    with c cycle_outcomes [of e iv lp st out] show ?thesis by auto
  next
    case (Inr lp')
    with c Suc.IH [of lp' st1] show ?thesis by simp
  qed
qed

section \<open>Running the samples\<close>

lemmas sample_defs = env_with_file_def sample_env_def sample_loads_def state0_def
  three_lines_def malformed_first_def null_sentiment_line_def

lemmas run_defs = try_block_def cycle_def for_body_def
  next_line_def seek_def open_file_def tell_def sleep_def logger_def strip_def isspace_def
  process_message_def process_message_body_def get_def insert_message_def insert_insight_def
  insert_insight_body_def Let_def

lemma while_true_leaves:
  "fst (cycle e iv lp st) = Inl out \<Longrightarrow> 0 < n \<Longrightarrow>
     while_true e n iv lp st = (out, snd (cycle e iv lp st))"
  by (cases n; cases "cycle e iv lp st") auto

section \<open>The lines the iterator returns\<close>

lemma next_line_unterminated:
  assumes "drop (pos f) (content f) \<noteq> []" and "CHR 0x0A \<notin> set (drop (pos f) (content f))"
  shows "next_line f =
           (Some (drop (pos f) (content f)), f\<lparr>pos := length (content f), telling := False\<rparr>)"
proof -
  have tw: "takeWhile (\<lambda>c. c \<noteq> CHR 0x0A) (drop (pos f) (content f)) = drop (pos f) (content f)"
    using assms(2) by auto
  from assms(1) have "pos f < length (content f)"
    by simp
  then show ?thesis
    unfolding next_line_def Let_def tw using assms(1) by simp
qed

lemma next_line_terminated:
  assumes "drop (pos f) (content f) = a @ CHR 0x0A # b" and "CHR 0x0A \<notin> set a"
  shows "next_line f = (Some (a @ [CHR 0x0A]), f\<lparr>pos := pos f + Suc (length a), telling := False\<rparr>)"
proof -
  have tw: "takeWhile (\<lambda>c. c \<noteq> CHR 0x0A) (a @ CHR 0x0A # b) = a"
    using assms(2) by (subst takeWhile_append2) auto
  show ?thesis
    unfolding next_line_def Let_def assms(1) tw by simp
qed

lemma inserts_ok:
  assumes "primary_fault e (tick st) = None" and "insight_fault e (Suc (tick st)) = None"
  shows "primary (snd (insert_insight e p (insert_message e p st))) = primary st @ [p] \<and>
         insights (snd (insert_insight e p (insert_message e p st))) =
           insights st @ [(Suc (length (insights st)), p)]"
  using assms
  by (simp add: insert_insight_def insert_insight_body_def insert_message_def logger_def Let_def)

lemma try_block_first_record:
  assumes "file_at e (tick st) = Inr s"
    and "next_line (seek (open_file s) lp) = (Some line, f')" and "strip line \<noteq> []"
    and "json_loads e (strip line) = Inr raw"
    and "process_message e raw
           (st\<lparr>logs := logs st @ [(INFO, Step3_read_from_live_data_file_at_position lp)],
               tick := Suc (tick st)\<rparr>) = (Some p, st1)"
  shows "try_block e iv lp st = (Some OSError, lp, snd (insert_insight e p (insert_message e p st1)))"
proof -
  from assms(2) have t: "tell f' = Inl OSError" by (rule next_line_telling)
  show ?thesis
    unfolding try_block_first [OF assms(1-3)] for_body_record [OF assms(3-5)] t by simp
qed

lemma cycle_first_record:
  assumes "file_at e (tick st) = Inr s"
    and "next_line (seek (open_file s) lp) = (Some line, f')" and "strip line \<noteq> []"
    and "json_loads e (strip line) = Inr raw"
    and "process_message e raw
           (st\<lparr>logs := logs st @ [(INFO, Step3_read_from_live_data_file_at_position lp)],
               tick := Suc (tick st)\<rparr>) = (Some p, st1)"
  shows "cycle e iv lp st =
           (Inl (Exit 11),
            logger ERROR (Error_reading_from_live_data_file OSError)
              (snd (insert_insight e p (insert_message e p st1))))"
  using try_block_first_record [OF assms] by (simp add: cycle_fatal)

section \<open>The two inserts\<close>

lemma init_db_stores:
  "init_db e st = (r, st1) \<Longrightarrow>
     primary st1 = primary st \<and> insights st1 = insights st \<and>
     primary_attempts st1 = primary_attempts st \<and> insight_attempts st1 = insight_attempts st"
  by (auto simp: init_db_def split: option.splits)

lemma init_insights_db_stores:
  "init_insights_db e st = (r, st1) \<Longrightarrow>
     primary st1 = primary st \<and> insights st1 = insights st \<and>
     primary_attempts st1 = primary_attempts st \<and> insight_attempts st1 = insight_attempts st"
  by (auto simp: init_insights_db_def logger_def split: option.splits)

lemma for_body_inserts:
  assumes "strip line \<noteq> []" and "json_loads e (strip line) = Inr raw"
    and "process_message e raw st = (Some p, st1)"
    and "primary_fault e (tick st1) = None" and "insight_fault e (Suc (tick st1)) = None"
  shows "primary (snd (snd (for_body e f line lp st))) = primary st @ [p] \<and>
         insights (snd (snd (for_body e f line lp st))) = insights st @ [(Suc (length (insights st)), p)]"
proof -
  from assms(3) have k: "primary st1 = primary st" "insights st1 = insights st"
    using process_message_counts by blast+
  show ?thesis
    unfolding for_body_record [OF assms(1-3)]
    using inserts_ok [OF assms(4,5), of p] k by (simp split: sum.splits)
qed

lemma consume_one_row:
  assumes fl: "\<forall>t. file_at e t = Inr s"
    and flt: "\<forall>t. primary_fault e t = None" "\<forall>t. insight_fault e t = None"
      "\<forall>t. init_db_fault e t = None" "\<forall>t. init_insights_fault e t = None"
    and ln: "next_line (seek (open_file s) 0) = (Some line, f')" "strip line \<noteq> []"
      "json_loads e (strip line) = Inr raw"
    and rc: "\<forall>now. \<exists>p. process_message_body e now raw = Inr p"
  shows "fst (consume_messages_from_file e (Suc n) iv lp st) = Exit 11 \<and>
         length (primary (snd (consume_messages_from_file e (Suc n) iv lp st))) = Suc (length (primary st)) \<and>
         map fst (insights (snd (consume_messages_from_file e (Suc n) iv lp st))) =
           map fst (insights st) @ [Suc (length (insights st))]"
proof -
  let ?st1 = "logger INFO Step1_initialize_the_database
                  (logger INFO (Arg_last_position lp)
                    (logger INFO (Arg_interval_secs iv)
                      (logger INFO Arg_sql_path
                        (logger INFO Arg_live_data_path
                          (logger INFO Called_consume_messages_from_file st)))))"
  obtain st2 where i1: "init_db e ?st1 = (None, st2)"
    using flt(3) by (simp add: init_db_def)
  obtain st3 where i2: "init_insights_db e st2 = (None, st3)"
    using flt(4) by (simp add: init_insights_db_def)
  let ?st4 = "logger INFO Step2_set_the_last_position_to_0 st3"
  have c: "consume_messages_from_file e (Suc n) iv lp st = while_true e (Suc n) iv 0 ?st4"
    by (simp add: consume_messages_from_file_def i1 i2)
  have k4: "primary ?st4 = primary st" "insights ?st4 = insights st"
    using init_db_stores [OF i1] init_insights_db_stores [OF i2] by (simp_all add: logger_def)
  let ?st5 = "?st4\<lparr>logs := logs ?st4 @ [(INFO, Step3_read_from_live_data_file_at_position 0)],
               tick := Suc (tick ?st4)\<rparr>"
  from rc obtain p where "process_message_body e (utcnow e (tick ?st5)) raw = Inr p"
    by blast
  then obtain st6 where pm: "process_message e raw ?st5 = (Some p, st6)"
    by (simp add: process_message_def)
  from fl have f: "file_at e (tick ?st4) = Inr s" by simp
  have cy: "cycle e iv 0 ?st4 =
           (Inl (Exit 11),
            logger ERROR (Error_reading_from_live_data_file OSError)
              (snd (insert_insight e p (insert_message e p st6))))"
    using f ln pm by (rule cycle_first_record)
  have k6: "primary st6 = primary st" "insights st6 = insights st"
    using process_message_counts [OF pm] k4 by simp_all
  have ins: "primary (snd (insert_insight e p (insert_message e p st6))) = primary st6 @ [p] \<and>
         insights (snd (insert_insight e p (insert_message e p st6))) =
           insights st6 @ [(Suc (length (insights st6)), p)]"
    using flt(1,2) by (simp add: inserts_ok)
  show ?thesis
    unfolding c using cy ins k6 by (simp add: logger_def)
qed

text \<open>
  C6. For a line that parses and normalises, the loop body issues exactly one INSERT to
  the primary table and one to \<open>insights_pinkston\<close>, and when they succeed each table
  gains exactly that row, whatever rows it already holds: nothing looks for a duplicate.
  Reading the same line again from offset 0, as a second call of
  \<open>consume_messages_from_file\<close> on the same file does, adds a second row to each
  table; the two insight rows have consecutive ids.
\<close>

theorem one_insert_per_sink_no_dedup:
  "(strip line \<noteq> [] \<and> json_loads e (strip line) = Inr raw \<and>
    process_message e raw st = (Some p, st1) \<and>
    primary_fault e (tick st1) = None \<and> insight_fault e (Suc (tick st1)) = None \<longrightarrow>
      primary (snd (snd (for_body e f line last_position st))) = primary st @ [p] \<and>
      insights (snd (snd (for_body e f line last_position st))) =
        insights st @ [(Suc (length (insights st)), p)] \<and>
      primary_attempts (snd (snd (for_body e f line last_position st))) = Suc (primary_attempts st) \<and>
      insight_attempts (snd (snd (for_body e f line last_position st))) = Suc (insight_attempts st)) \<and>
   ((\<forall>t. file_at e t = Inr s) \<and> (\<forall>t. primary_fault e t = None) \<and>
    (\<forall>t. insight_fault e t = None) \<and> (\<forall>t. init_db_fault e t = None) \<and>
    (\<forall>t. init_insights_fault e t = None) \<and>
    next_line (seek (open_file s) 0) = (Some line, f') \<and> strip line \<noteq> [] \<and>
    json_loads e (strip line) = Inr raw \<and>
    (\<forall>now. \<exists>q. process_message_body e now raw = Inr q) \<longrightarrow>
      length (primary (snd (consume_messages_from_file e (Suc m) interval_secs last_position'
                (snd (consume_messages_from_file e (Suc n) interval_secs last_position st)))))
        = length (primary st) + 2 \<and>
      map fst (insights (snd (consume_messages_from_file e (Suc m) interval_secs last_position'
                (snd (consume_messages_from_file e (Suc n) interval_secs last_position st)))))
        = map fst (insights st) @ [Suc (length (insights st)), Suc (Suc (length (insights st)))])"
proof (intro conjI impI)
  assume a: "strip line \<noteq> [] \<and> json_loads e (strip line) = Inr raw \<and>
    process_message e raw st = (Some p, st1) \<and>
    primary_fault e (tick st1) = None \<and> insight_fault e (Suc (tick st1)) = None"
  then have i: "primary (snd (snd (for_body e f line last_position st))) = primary st @ [p] \<and>
      insights (snd (snd (for_body e f line last_position st))) =
        insights st @ [(Suc (length (insights st)), p)]"
    using for_body_inserts by blast
  from i show "primary (snd (snd (for_body e f line last_position st))) = primary st @ [p]" ..
  from i show "insights (snd (snd (for_body e f line last_position st))) =
        insights st @ [(Suc (length (insights st)), p)]" ..
  from a have fb: "for_body e f line last_position st =
           (case tell f of
              Inl x \<Rightarrow> (Some x, last_position, snd (insert_insight e p (insert_message e p st1)))
            | Inr n \<Rightarrow> (None, n, snd (insert_insight e p (insert_message e p st1))))"
    using for_body_record by blast
  from a have c: "primary_attempts st1 = primary_attempts st" "insight_attempts st1 = insight_attempts st"
    using process_message_counts by blast+
  show "primary_attempts (snd (snd (for_body e f line last_position st))) = Suc (primary_attempts st)"
    unfolding fb by (simp add: insert_insight_counts insert_message_counts c split: sum.splits)
  show "insight_attempts (snd (snd (for_body e f line last_position st))) = Suc (insight_attempts st)"
    unfolding fb by (simp add: insert_insight_counts insert_message_counts c split: sum.splits)
next
  assume a: "(\<forall>t. file_at e t = Inr s) \<and> (\<forall>t. primary_fault e t = None) \<and>
    (\<forall>t. insight_fault e t = None) \<and> (\<forall>t. init_db_fault e t = None) \<and>
    (\<forall>t. init_insights_fault e t = None) \<and>
    next_line (seek (open_file s) 0) = (Some line, f') \<and> strip line \<noteq> [] \<and>
    json_loads e (strip line) = Inr raw \<and>
    (\<forall>now. \<exists>q. process_message_body e now raw = Inr q)"
  let ?S1 = "snd (consume_messages_from_file e (Suc n) interval_secs last_position st)"
  let ?S2 = "snd (consume_messages_from_file e (Suc m) interval_secs last_position' ?S1)"
  from a have r: "length (primary (snd (consume_messages_from_file e (Suc k) interval_secs lp st'))) =
        Suc (length (primary st')) \<and>
      map fst (insights (snd (consume_messages_from_file e (Suc k) interval_secs lp st'))) =
        map fst (insights st') @ [Suc (length (insights st'))]" for k lp st'
    using consume_one_row [of e s line f' raw k interval_secs lp st'] by blast
  have l: "length (insights ?S1) = Suc (length (insights st))"
    using r [of n last_position st] by (metis length_append_singleton length_map)
  show "length (primary ?S2) = length (primary st) + 2"
    using r [of n last_position st] r [of m last_position' ?S1] by simp
  show "map fst (insights ?S2) =
      map fst (insights st) @ [Suc (length (insights st)), Suc (Suc (length (insights st)))]"
    using r [of n last_position st] r [of m last_position' ?S1] l by simp
qed


theorem one_insert_per_sink_no_dedup_witness:
  "primary (snd (snd (for_body (env_with_file one_line) (open_file one_line) one_line 0 state0))) =
     [the (fst (process_message (env_with_file one_line) (JObj []) state0))] \<and>
   insights (snd (snd (for_body (env_with_file one_line) (open_file one_line) one_line 0 state0))) =
     [(1, the (fst (process_message (env_with_file one_line) (JObj []) state0)))] \<and>
   primary_attempts (snd (snd (for_body (env_with_file one_line) (open_file one_line) one_line 0 state0))) = 1 \<and>
   insight_attempts (snd (snd (for_body (env_with_file one_line) (open_file one_line) one_line 0 state0))) = 1 \<and>
   length (primary (snd (consume_messages_from_file (env_with_file one_line) 1 1 0
             (snd (consume_messages_from_file (env_with_file one_line) 1 1 0 state0))))) = 2 \<and>
   map fst (insights (snd (consume_messages_from_file (env_with_file one_line) 1 1 0
             (snd (consume_messages_from_file (env_with_file one_line) 1 1 0 state0))))) = [1, 2]"
proof -
  let ?e = "env_with_file one_line"
  let ?p = "the (fst (process_message ?e (JObj []) state0))"
  have p: "process_message ?e (JObj []) state0 = (Some ?p, snd (process_message ?e (JObj []) state0))"
    by (simp add: pm_defs env_with_file_def)
  have h1: "strip one_line \<noteq> [] \<and> json_loads ?e (strip one_line) = Inr (JObj []) \<and>
    primary_fault ?e (tick (snd (process_message ?e (JObj []) state0))) = None \<and>
    insight_fault ?e (Suc (tick (snd (process_message ?e (JObj []) state0)))) = None"
    by (simp add: sample_defs one_line_def strip_def isspace_def)
  have h2: "(\<forall>t. file_at ?e t = Inr one_line) \<and> (\<forall>t. primary_fault ?e t = None) \<and>
    (\<forall>t. insight_fault ?e t = None) \<and> (\<forall>t. init_db_fault ?e t = None) \<and>
    (\<forall>t. init_insights_fault ?e t = None)"
    by (simp add: sample_defs)
  have h3: "next_line (seek (open_file one_line) 0) =
      (Some one_line, snd (next_line (seek (open_file one_line) 0)))"
    by (simp add: next_line_def seek_def open_file_def one_line_def Let_def)
  have h4: "\<forall>now. \<exists>q. process_message_body ?e now (JObj []) = Inr q"
    by (simp add: pm_defs env_with_file_def)
  note t = one_insert_per_sink_no_dedup [of one_line ?e "JObj []" state0 ?p
      "snd (process_message ?e (JObj []) state0)" "open_file one_line" 0 one_line
      "snd (next_line (seek (open_file one_line) 0))" 0 1 0 0]
  from t p h1 have 1:
    "primary (snd (snd (for_body ?e (open_file one_line) one_line 0 state0))) = primary state0 @ [?p] \<and>
     insights (snd (snd (for_body ?e (open_file one_line) one_line 0 state0))) =
       insights state0 @ [(Suc (length (insights state0)), ?p)] \<and>
     primary_attempts (snd (snd (for_body ?e (open_file one_line) one_line 0 state0))) =
       Suc (primary_attempts state0) \<and>
     insight_attempts (snd (snd (for_body ?e (open_file one_line) one_line 0 state0))) =
       Suc (insight_attempts state0)"
    by blast
  from t h1 h2 h3 h4 have 2:
    "length (primary (snd (consume_messages_from_file ?e (Suc 0) 1 0
             (snd (consume_messages_from_file ?e (Suc 0) 1 0 state0))))) = length (primary state0) + 2 \<and>
     map fst (insights (snd (consume_messages_from_file ?e (Suc 0) 1 0
             (snd (consume_messages_from_file ?e (Suc 0) 1 0 state0))))) =
       map fst (insights state0) @ [Suc (length (insights state0)), Suc (Suc (length (insights state0)))]"
    by blast
  have s0: "primary state0 = []" "insights state0 = []" "primary_attempts state0 = 0"
    "insight_attempts state0 = 0"
    by (simp_all add: state0_def)
  show ?thesis
    using 1 2 unfolding s0 by (simp add: numeral_2_eq_2)
qed

section \<open>The outcomes of main\<close>

lemma consume_outcomes:
  "fst (consume_messages_from_file e n iv lp st) = Running \<or>
   fst (consume_messages_from_file e n iv lp st) = Exit 11 \<or>
   (\<exists>x. fst (consume_messages_from_file e n iv lp st) = Raised x)"
proof -
  let ?st1 = "logger INFO Step1_initialize_the_database
                  (logger INFO (Arg_last_position lp)
                    (logger INFO (Arg_interval_secs iv)
                      (logger INFO Arg_sql_path
                        (logger INFO Arg_live_data_path
                          (logger INFO Called_consume_messages_from_file st)))))"
  obtain r2 st2 where i1: "init_db e ?st1 = (r2, st2)"
    by (cases "init_db e ?st1")
  obtain r3 st3 where i2: "init_insights_db e st2 = (r3, st3)"
    by (cases "init_insights_db e st2")
  show ?thesis
    using while_true_outcomes [of e n iv 0 "logger INFO Step2_set_the_last_position_to_0 st3"]
    by (cases r2; cases r3) (auto simp: consume_messages_from_file_def i1 i2)
qed

lemma main_config_fails:
  "config_read e = Inl x \<Longrightarrow> fst (main e n st) = Exit 1"
  by (simp add: main_def)

lemma main_unlink_fails:
  "config_read e = Inr iv \<Longrightarrow> db_file st \<Longrightarrow> unlink_fault e = Some x \<Longrightarrow>
     fst (main e n st) = Exit 2"
  by (simp add: main_def logger_def Let_def)

lemma main_init_db_fails:
  "config_read e = Inr iv \<Longrightarrow> (db_file st \<longrightarrow> unlink_fault e = None) \<Longrightarrow>
   init_db_fault e (tick st) = Some x \<Longrightarrow> fst (main e n st) = Exit 3"
  by (auto simp: main_def logger_def init_db_def Let_def split: option.splits)

lemma main_init_insights_fails:
  "config_read e = Inr iv \<Longrightarrow> (db_file st \<longrightarrow> unlink_fault e = None) \<Longrightarrow>
   init_db_fault e (tick st) = None \<Longrightarrow> init_insights_fault e (Suc (tick st)) = Some x \<Longrightarrow>
   fst (main e n st) = Exit 3"
  by (auto simp: main_def logger_def init_db_def init_insights_db_def Let_def split: option.splits)

lemma main_after_consume:
  "fst (case consume_messages_from_file e n iv 0 st of
          (Raised x, st6) \<Rightarrow>
            (Returned, logger INFO Consumer_shutting_down (logger ERROR (Unexpected_error x) st6))
        | (Running, st6) \<Rightarrow> (Running, st6)
        | (out, st6) \<Rightarrow> (out, logger INFO Consumer_shutting_down st6)) = Exit c \<Longrightarrow> c = 11"
  using consume_outcomes [of e n iv 0 st]
  by (cases "consume_messages_from_file e n iv 0 st") (auto split: outcome.splits)

lemma main_exit_codes:
  assumes "fst (main e n st) = Exit c"
  shows "c = 1 \<or> c = 2 \<or> c = 3 \<or> c = 11"
proof (cases "config_read e")
  case (Inl x)
  with assms show ?thesis by (simp add: main_def)
next
  case (Inr iv)
  show ?thesis
  proof (cases "db_file st \<and> unlink_fault e \<noteq> None")
    case True
    with Inr assms show ?thesis by (auto simp: main_def logger_def Let_def)
  next
    case False
    then have u: "db_file st \<longrightarrow> unlink_fault e = None" by simp
    show ?thesis
    proof (cases "init_db_fault e (tick st)")
      case (Some x)
      with Inr u assms main_init_db_fails [of e iv st x n] show ?thesis by simp
    next
      case None
      show ?thesis
      proof (cases "init_insights_fault e (Suc (tick st))")
        case (Some x)
        with Inr u None assms main_init_insights_fails [of e iv st x n] show ?thesis by simp
      next
        case n2: None
        from Inr u None n2 assms show ?thesis
          by (auto simp: main_def init_db_def init_insights_db_def Let_def
              dest!: main_after_consume split: if_splits option.splits)
      qed
    qed
  qed
qed


lemmas main_defs = main_def consume_messages_from_file_def init_db_def init_insights_db_def

section \<open>The log is only added to\<close>

text \<open>
  No operation reads the log, and each only adds lines at its end: running an operation
  on a state with lines put in front of its log gives the same result with the same
  lines in front.
\<close>

lemma prepend_logs_fields [simp]:
  "logs (prepend_logs L st) = L @ logs st"
  "tick (prepend_logs L st) = tick st"
  "primary (prepend_logs L st) = primary st"
  "insights (prepend_logs L st) = insights st"
  "slept (prepend_logs L st) = slept st"
  by (simp_all add: prepend_logs_def)

lemma logger_frame: "logger l m (prepend_logs L st) = prepend_logs L (logger l m st)"
  by (simp add: logger_def prepend_logs_def)

lemma process_message_frame:
  "process_message e raw (prepend_logs L st) =
     (fst (process_message e raw st), prepend_logs L (snd (process_message e raw st)))"
  by (simp add: process_message_def prepend_logs_def logger_def split: sum.splits)

lemma insert_message_frame:
  "insert_message e p (prepend_logs L st) = prepend_logs L (insert_message e p st)"
  by (simp add: insert_message_def prepend_logs_def logger_def Let_def split: option.splits)

lemma insert_insight_frame:
  "insert_insight e p (prepend_logs L st) =
     (fst (insert_insight e p st), prepend_logs L (snd (insert_insight e p st)))"
  by (simp add: insert_insight_def insert_insight_body_def prepend_logs_def logger_def Let_def
      split: option.splits)

lemma init_db_frame:
  "init_db e (prepend_logs L st) = (fst (init_db e st), prepend_logs L (snd (init_db e st)))"
  by (simp add: init_db_def prepend_logs_def split: option.splits)

lemma init_insights_db_frame:
  "init_insights_db e (prepend_logs L st) =
     (fst (init_insights_db e st), prepend_logs L (snd (init_insights_db e st)))"
  by (simp add: init_insights_db_def prepend_logs_def logger_def split: option.splits)

lemma sleep_frame:
  "sleep secs (prepend_logs L st) = (fst (sleep secs st), prepend_logs L (snd (sleep secs st)))"
  by (simp add: sleep_def prepend_logs_def)

lemma for_body_frame:
  "for_body e f line lp (prepend_logs L st) =
     (fst (for_body e f line lp st), fst (snd (for_body e f line lp st)),
      prepend_logs L (snd (snd (for_body e f line lp st))))"
  by (simp add: for_body_def process_message_frame insert_message_frame insert_insight_frame
      split: sum.splits prod.splits option.splits)

lemma for_loop_frame:
  "for_loop e f lp (prepend_logs L st) =
     (fst (for_loop e f lp st), fst (snd (for_loop e f lp st)),
      prepend_logs L (snd (snd (for_loop e f lp st))))"
proof (induction e f lp st rule: for_loop.induct)
  case (1 e f lp st)
  show ?case
  proof (cases "next_line f")
    case (Pair r f')
    show ?thesis
    proof (cases r)
      case None
      with Pair show ?thesis by (simp add: for_loop.simps [of e f])
    next
      case (Some line)
      obtain x lp1 st1 where b: "for_body e f' line lp st = (x, lp1, st1)"
        by (cases "for_body e f' line lp st")
      show ?thesis
      proof (cases x)
        case None
        have "for_loop e f' lp1 (prepend_logs L st1) =
            (fst (for_loop e f' lp1 st1), fst (snd (for_loop e f' lp1 st1)),
             prepend_logs L (snd (snd (for_loop e f' lp1 st1))))"
          using "1.IH" [of r f' line x "(lp1, st1)" lp1 st1] Pair Some b None by simp
        then show ?thesis
          using Pair Some b None by (simp add: for_loop.simps [of e f] for_body_frame)
      next
        case (Some y)
        with Pair \<open>r = Some line\<close> b show ?thesis
          by (simp add: for_loop.simps [of e f] for_body_frame)
      qed
    qed
  qed
qed


lemma prepend_logs_tick:
  "(prepend_logs L st)\<lparr>tick := t\<rparr> = prepend_logs L (st\<lparr>tick := t\<rparr>)"
  by (simp add: prepend_logs_def)

lemma try_block_frame:
  "try_block e iv lp (prepend_logs L st) =
     (fst (try_block e iv lp st), fst (snd (try_block e iv lp st)),
      prepend_logs L (snd (snd (try_block e iv lp st))))"
proof (cases "file_at e (tick st)")
  case (Inl x)
  then show ?thesis
    by (simp add: try_block_def Let_def logger_frame prepend_logs_tick logger_def [of _ _ st])
next
  case (Inr s)
  let ?st2 = "(logger INFO (Step3_read_from_live_data_file_at_position lp) st)\<lparr>tick := Suc (tick st)\<rparr>"
  obtain x lp1 st3 where fl: "for_loop e (seek (open_file s) lp) lp ?st2 = (x, lp1, st3)"
    by (cases "for_loop e (seek (open_file s) lp) lp ?st2")
  have t: "tick (logger INFO (Step3_read_from_live_data_file_at_position lp) st) = tick st"
    by (simp add: logger_def)
  have 1: "try_block e iv lp st =
      (case x of Some y \<Rightarrow> (Some y, lp1, st3)
       | None \<Rightarrow> (case sleep iv st3 of (Some y, st4) \<Rightarrow> (Some y, lp1, st4)
                   | (None, st4) \<Rightarrow> (None, lp1, st4)))"
    using Inr fl by (simp add: try_block_def Let_def t split: option.splits)
  have 2: "try_block e iv lp (prepend_logs L st) =
      (case x of Some y \<Rightarrow> (Some y, lp1, prepend_logs L st3)
       | None \<Rightarrow> (case sleep iv (prepend_logs L st3) of (Some y, st4) \<Rightarrow> (Some y, lp1, st4)
                   | (None, st4) \<Rightarrow> (None, lp1, st4)))"
    using Inr fl
    by (simp add: try_block_def Let_def logger_frame prepend_logs_tick t for_loop_frame
        split: option.splits)
  show ?thesis
    unfolding 1 2 by (simp add: sleep_frame split: option.splits prod.splits)
qed

lemma cycle_frame:
  "cycle e iv lp (prepend_logs L st) =
     (fst (cycle e iv lp st), prepend_logs L (snd (cycle e iv lp st)))"
  by (simp add: cycle_def try_block_frame logger_frame sleep_frame
      split: prod.splits option.splits)

lemma while_true_frame:
  "while_true e n iv lp (prepend_logs L st) =
     (fst (while_true e n iv lp st), prepend_logs L (snd (while_true e n iv lp st)))"
proof (induction n arbitrary: lp st)
  case 0
  then show ?case by simp
next
  case (Suc n)
  then show ?case
    by (simp add: cycle_frame split: prod.splits sum.splits)
qed


lemma sleep_logs: "logs (snd (sleep secs st)) = logs st"
  by (simp add: sleep_def)

lemma try_block_logs:
  "\<exists>rest. logs (snd (snd (try_block e iv lp st))) =
            logs st @ (INFO, Step3_read_from_live_data_file_at_position lp) # rest"
proof -
  let ?L = "logs st @ [(INFO, Step3_read_from_live_data_file_at_position lp)]"
  let ?s0 = "st\<lparr>logs := [], tick := Suc (tick st)\<rparr>"
  have st2: "(logger INFO (Step3_read_from_live_data_file_at_position lp) st)\<lparr>tick := Suc (tick st)\<rparr>
             = prepend_logs ?L ?s0"
    by (simp add: logger_def prepend_logs_def)
  show ?thesis
  proof (cases "file_at e (tick st)")
    case (Inl x)
    then show ?thesis
      by (simp add: try_block_def Let_def logger_def)
  next
    case (Inr s)
    obtain x lp1 st3 where fl: "for_loop e (seek (open_file s) lp) lp ?s0 = (x, lp1, st3)"
      by (cases "for_loop e (seek (open_file s) lp) lp ?s0")
    have t: "tick (logger INFO (Step3_read_from_live_data_file_at_position lp) st) = tick st"
      by (simp add: logger_def)
    have tb: "try_block e iv lp st =
        (case for_loop e (seek (open_file s) lp) lp (prepend_logs ?L ?s0) of
           (Some x, lp', st3) \<Rightarrow> (Some x, lp', st3)
         | (None, lp', st3) \<Rightarrow>
             (case sleep iv st3 of
                (Some x, st4) \<Rightarrow> (Some x, lp', st4)
              | (None, st4) \<Rightarrow> (None, lp', st4)))"
      using Inr by (simp add: try_block_def Let_def t st2)
    have "logs (snd (snd (try_block e iv lp st))) = ?L @ logs st3"
      unfolding tb for_loop_frame fl
      using sleep_logs [of iv "prepend_logs ?L st3"]
      by (cases x; cases "sleep iv (prepend_logs ?L st3)"; cases "fst (sleep iv (prepend_logs ?L st3))")
         auto
    then show ?thesis by simp
  qed
qed

lemma cycle_logs:
  "\<exists>rest. logs (snd (cycle e iv lp st)) =
            logs st @ (INFO, Step3_read_from_live_data_file_at_position lp) # rest"
proof -
  obtain x lp1 st1 where tb: "try_block e iv lp st = (x, lp1, st1)"
    by (cases "try_block e iv lp st")
  from try_block_logs [of e iv lp st] obtain rest where
    r: "logs st1 = logs st @ (INFO, Step3_read_from_live_data_file_at_position lp) # rest"
    unfolding tb by auto
  show ?thesis
    using r sleep_logs [of iv "logger ERROR Live_data_file_not_found st1"]
    by (cases x; cases "sleep iv (logger ERROR Live_data_file_not_found st1)";
        cases "fst (sleep iv (logger ERROR Live_data_file_not_found st1))")
       (auto simp: cycle_def tb logger_def)
qed

lemma while_true_appends:
  "\<exists>rest. logs (snd (while_true e n iv lp st)) = logs st @ rest"
proof (induction n arbitrary: lp st)
  case 0
  then show ?case by simp
next
  case (Suc n)
  obtain r st1 where c: "cycle e iv lp st = (r, st1)"
    by (cases "cycle e iv lp st")
  from cycle_logs [of e iv lp st] obtain rest where r: "logs st1 = logs st @ rest"
    unfolding c by auto
  show ?case
  proof (cases r)
    case (Inl out)
    with c r show ?thesis by simp
  next
    case (Inr lp')
    from Suc.IH [of lp' st1] obtain rest' where "logs (snd (while_true e n iv lp' st1)) = logs st1 @ rest'"
      by blast
    with c r Inr show ?thesis by simp
  qed
qed

lemma while_true_first_log:
  "\<exists>rest. logs (snd (while_true e (Suc n) iv lp st)) =
            logs st @ (INFO, Step3_read_from_live_data_file_at_position lp) # rest"
proof -
  obtain r st1 where c: "cycle e iv lp st = (r, st1)"
    by (cases "cycle e iv lp st")
  from cycle_logs [of e iv lp st] obtain rest where
    r: "logs st1 = logs st @ (INFO, Step3_read_from_live_data_file_at_position lp) # rest"
    unfolding c by auto
  show ?thesis
  proof (cases r)
    case (Inl out)
    with c r show ?thesis by simp
  next
    case (Inr lp')
    from while_true_appends [of e n iv lp' st1] obtain rest' where
      "logs (snd (while_true e n iv lp' st1)) = logs st1 @ rest'"
      by blast
    with c r Inr show ?thesis by simp
  qed
qed


lemma after_header_frame:
  "after_header e n iv (prepend_logs L st) =
     (fst (after_header e n iv st), prepend_logs L (snd (after_header e n iv st)))"
proof -
  obtain r2 st2 where i1: "init_db e st = (r2, st2)"
    by (cases "init_db e st")
  obtain r3 st3 where i2: "init_insights_db e st2 = (r3, st3)"
    by (cases "init_insights_db e st2")
  show ?thesis
    by (cases r2; cases r3)
       (simp_all add: after_header_def init_db_frame init_insights_db_frame logger_frame
          while_true_frame i1 i2)
qed

lemma consume_after_header:
  "consume_messages_from_file e n iv lp st =
     (fst (after_header e n iv (st\<lparr>logs := []\<rparr>)),
      prepend_logs (logs st @ header iv lp) (snd (after_header e n iv (st\<lparr>logs := []\<rparr>))))"
proof -
  have "logger INFO Step1_initialize_the_database
                  (logger INFO (Arg_last_position lp)
                    (logger INFO (Arg_interval_secs iv)
                      (logger INFO Arg_sql_path
                        (logger INFO Arg_live_data_path
                          (logger INFO Called_consume_messages_from_file st))))) =
        prepend_logs (logs st @ header iv lp) (st\<lparr>logs := []\<rparr>)"
    by (simp add: logger_def prepend_logs_def header_def)
  then have "consume_messages_from_file e n iv lp st =
      after_header e n iv (prepend_logs (logs st @ header iv lp) (st\<lparr>logs := []\<rparr>))"
    unfolding consume_messages_from_file_def after_header_def Let_def by simp
  then show ?thesis
    by (simp add: after_header_frame)
qed

lemma after_header_first_logs:
  assumes "init_db_fault e (tick st) = None" and "init_insights_fault e (Suc (tick st)) = None"
    and "logs st = []"
  shows "\<exists>rest. logs (snd (after_header e (Suc n) iv st)) =
           [(INFO, Initialized_insights_db), (INFO, Step2_set_the_last_position_to_0),
            (INFO, Step3_read_from_live_data_file_at_position 0)] @ rest"
proof -
  let ?st3 = "logger INFO Initialized_insights_db (st\<lparr>tick := Suc (Suc (tick st)), db_file := True\<rparr>)"
  let ?st4 = "logger INFO Step2_set_the_last_position_to_0 ?st3"
  have a: "after_header e (Suc n) iv st = while_true e (Suc n) iv 0 ?st4"
    using assms(1,2) by (simp add: after_header_def init_db_def init_insights_db_def)
  from while_true_first_log [of e n iv 0 ?st4] obtain rest where
    "logs (snd (while_true e (Suc n) iv 0 ?st4)) =
       logs ?st4 @ (INFO, Step3_read_from_live_data_file_at_position 0) # rest"
    by blast
  then show ?thesis
    unfolding a using assms(3) by (simp add: logger_def)
qed

section \<open>The first line of a pass and the start of main\<close>

lemma for_loop_first_line:
  "for_loop e f lp st =
     (case first_line f of
        None \<Rightarrow> (None, lp, st)
      | Some (line, f') \<Rightarrow> for_body e f' line lp st)"
proof (induction f rule: first_line.induct)
  case (1 f)
  show ?case
  proof (cases "next_line f")
    case (Pair r f1)
    show ?thesis
    proof (cases r)
      case None
      with Pair show ?thesis
        by (simp add: for_loop_eof first_line.simps [of f])
    next
      case (Some line)
      show ?thesis
      proof (cases "strip line = []")
        case True
        with Pair Some "1.IH" [of r f1 line] show ?thesis
          by (simp add: for_loop_blank first_line.simps [of f])
      next
        case False
        with Pair Some show ?thesis
          by (simp add: for_loop_first first_line.simps [of f])
      qed
    qed
  qed
qed

lemma first_line_props:
  "first_line f = Some (line, f') \<Longrightarrow> strip line \<noteq> [] \<and> tell f' = Inl OSError"
proof (induction f rule: first_line.induct)
  case (1 f)
  show ?case
  proof (cases "next_line f")
    case (Pair r f1)
    show ?thesis
    proof (cases r)
      case None
      with Pair "1.prems" show ?thesis
        by (simp add: first_line.simps [of f])
    next
      case (Some l)
      show ?thesis
      proof (cases "strip l = []")
        case True
        with Pair Some "1.prems" "1.IH" [of r f1 l] show ?thesis
          by (simp add: first_line.simps [of f])
      next
        case False
        with Pair Some "1.prems" next_line_telling [of f l f1] show ?thesis
          by (simp add: first_line.simps [of f])
      qed
    qed
  qed
qed

lemma try_block_first_line:
  assumes "file_at e (tick st) = Inr s"
    and "first_line (seek (open_file s) lp) = Some (line, f')"
  shows "try_block e iv lp st =
           for_body e f' line lp
             (st\<lparr>logs := logs st @ [(INFO, Step3_read_from_live_data_file_at_position lp)],
                 tick := Suc (tick st)\<rparr>)"
proof -
  let ?st = "st\<lparr>logs := logs st @ [(INFO, Step3_read_from_live_data_file_at_position lp)],
                 tick := Suc (tick st)\<rparr>"
  from assms(2) have p: "strip line \<noteq> []" "tell f' = Inl OSError"
    using first_line_props by blast+
  then obtain x st' where b: "for_body e f' line lp ?st = (Some x, lp, st')"
    using for_body_raises by blast
  have "for_loop e (seek (open_file s) lp) lp ?st = for_body e f' line lp ?st"
    by (simp add: for_loop_first_line assms(2))
  with assms(1) b show ?thesis
    by (simp add: try_block_def logger_def Let_def)
qed

lemma main_startup:
  assumes "startup_ok e iv st"
  shows "main e n st = finish (while_true e n iv 0 (loop_entry iv st))"
proof -
  from assms have c: "config_read e = Inr iv" and u: "\<not> db_file st \<or> unlink_fault e = None"
    and i: "init_db_fault e (tick st) = None" "init_insights_fault e (Suc (tick st)) = None"
      "init_db_fault e (Suc (Suc (tick st))) = None"
      "init_insights_fault e (Suc (Suc (Suc (tick st)))) = None"
    by (simp_all add: startup_ok_def eval_nat_numeral)
  have t4: "t + 4 = Suc (Suc (Suc (Suc t)))" for t :: nat by simp
  show ?thesis
  proof (cases "db_file st")
    case True
    with u have "unlink_fault e = None" by simp
    with True c i show ?thesis
      unfolding main_def consume_messages_from_file_def Let_def finish_def
      by (cases st) (simp add: init_db_def init_insights_db_def logger_def loop_entry_def header_def t4)
  next
    case False
    with c i show ?thesis
      unfolding main_def consume_messages_from_file_def Let_def finish_def
      by (cases st) (simp add: init_db_def init_insights_db_def logger_def loop_entry_def header_def t4)
  qed
qed

lemma main_exit:
  assumes "startup_ok e iv st" and "fst (while_true e n iv 0 (loop_entry iv st)) = Exit c"
  shows "main e n st =
           (Exit c, logger INFO Consumer_shutting_down (snd (while_true e n iv 0 (loop_entry iv st))))"
  using assms(2) unfolding main_startup [OF assms(1)] finish_def
  by (cases "while_true e n iv 0 (loop_entry iv st)") simp


lemma for_loop_keeps_position: "fst (snd (for_loop e f lp st)) = lp"
proof (cases "first_line f")
  case None
  then show ?thesis by (simp add: for_loop_first_line)
next
  case (Some a)
  obtain line f' where a: "a = (line, f')" by (cases a)
  with Some have "strip line \<noteq> []" "tell f' = Inl OSError"
    using first_line_props by blast+
  then obtain x st' where "for_body e f' line lp st = (Some x, lp, st')"
    using for_body_raises by blast
  with Some a show ?thesis by (simp add: for_loop_first_line)
qed

lemma for_body_parsed_raises:
  assumes "strip line \<noteq> []" and "tell f = Inl OSError" and "json_loads e (strip line) = Inr raw"
  shows "\<exists>st'. for_body e f line lp st = (Some OSError, lp, st')"
proof -
  obtain r st1 where pm: "process_message e raw st = (r, st1)"
    by (cases "process_message e raw st")
  show ?thesis
  proof (cases r)
    case None
    with assms pm show ?thesis by (simp add: for_body_def)
  next
    case (Some p)
    with assms pm show ?thesis by (simp add: for_body_record)
  qed
qed

lemma cycle_parsed_line:
  assumes "file_at e (tick st) = Inr s"
    and "first_line (seek (open_file s) lp) = Some (line, f')"
    and "json_loads e (strip line) = Inr raw"
  shows "\<exists>st'. cycle e iv lp st =
           (Inl (Exit 11), logger ERROR (Error_reading_from_live_data_file OSError) st')"
proof -
  let ?st = "st\<lparr>logs := logs st @ [(INFO, Step3_read_from_live_data_file_at_position lp)],
                 tick := Suc (tick st)\<rparr>"
  from assms(2) have p: "strip line \<noteq> []" "tell f' = Inl OSError"
    using first_line_props by blast+
  with assms(3) obtain st' where "for_body e f' line lp ?st = (Some OSError, lp, st')"
    using for_body_parsed_raises by blast
  then have "try_block e iv lp st = (Some OSError, lp, st')"
    using try_block_first_line [OF assms(1,2)] by simp
  then show ?thesis
    by (auto simp: cycle_fatal)
qed

lemma cycle_first_line_record:
  assumes "file_at e (tick st) = Inr s"
    and "first_line (seek (open_file s) lp) = Some (line, f')"
    and "json_loads e (strip line) = Inr raw"
    and "process_message e raw
           (st\<lparr>logs := logs st @ [(INFO, Step3_read_from_live_data_file_at_position lp)],
               tick := Suc (tick st)\<rparr>) = (Some p, st1)"
  shows "cycle e iv lp st =
           (Inl (Exit 11),
            logger ERROR (Error_reading_from_live_data_file OSError)
              (snd (insert_insight e p (insert_message e p st1))))"
proof -
  from assms(2) have p: "strip line \<noteq> []" "tell f' = Inl OSError"
    using first_line_props by blast+
  have "try_block e iv lp st = (Some OSError, lp, snd (insert_insight e p (insert_message e p st1)))"
    unfolding try_block_first_line [OF assms(1,2)] for_body_record [OF p(1) assms(3,4)] p(2)
    by simp
  then show ?thesis
    by (simp add: cycle_fatal)
qed

lemma consume_reads_from_start:
  assumes "init_db_fault e (tick st) = None" and "init_insights_fault e (tick st + 1) = None"
    and "file_at e (tick st + 2) = Inr s"
    and "first_line (seek (open_file s) 0) = Some (line, f')"
    and "json_loads e (strip line) = Inr raw"
    and "process_message_body e (utcnow e (tick st + 3)) raw = Inr p"
    and "primary_fault e (tick st + 4) = None" and "insight_fault e (tick st + 5) = None"
  shows "fst (consume_messages_from_file e (Suc m) iv lp st) = Exit 11 \<and>
         primary (snd (consume_messages_from_file e (Suc m) iv lp st)) = primary st @ [p] \<and>
         insights (snd (consume_messages_from_file e (Suc m) iv lp st)) =
           insights st @ [(Suc (length (insights st)), p)]"
proof -
  let ?st1 = "logger INFO Step1_initialize_the_database
                  (logger INFO (Arg_last_position lp)
                    (logger INFO (Arg_interval_secs iv)
                      (logger INFO Arg_sql_path
                        (logger INFO Arg_live_data_path
                          (logger INFO Called_consume_messages_from_file st)))))"
  have t1: "tick ?st1 = tick st" by (simp add: logger_def)
  obtain st2 where i1: "init_db e ?st1 = (None, st2)" and s2: "st2 = ?st1\<lparr>tick := Suc (tick st), db_file := True\<rparr>"
    using assms(1) by (simp add: init_db_def t1)
  obtain st3 where i2: "init_insights_db e st2 = (None, st3)"
    and s3: "st3 = logger INFO Initialized_insights_db (st2\<lparr>tick := Suc (Suc (tick st)), db_file := True\<rparr>)"
    using assms(2) by (simp add: init_insights_db_def s2)
  let ?st4 = "logger INFO Step2_set_the_last_position_to_0 st3"
  have c: "consume_messages_from_file e (Suc m) iv lp st = while_true e (Suc m) iv 0 ?st4"
    unfolding consume_messages_from_file_def Let_def by (simp add: i1 i2)
  have k4: "primary ?st4 = primary st" "insights ?st4 = insights st" "tick ?st4 = tick st + 2"
    by (simp_all add: s3 s2 logger_def)
  let ?st5 = "?st4\<lparr>logs := logs ?st4 @ [(INFO, Step3_read_from_live_data_file_at_position 0)],
               tick := Suc (tick ?st4)\<rparr>"
  have t5: "tick ?st5 = tick st + 3" using k4(3) by simp
  let ?st6 = "logger INFO (Processed_message p) (?st5\<lparr>tick := Suc (tick ?st5)\<rparr>)"
  have pm: "process_message e raw ?st5 = (Some p, ?st6)"
    using assms(6) unfolding process_message_def t5 by simp
  have f: "file_at e (tick ?st4) = Inr s" using assms(3) k4(3) by simp
  have cy: "cycle e iv 0 ?st4 =
           (Inl (Exit 11),
            logger ERROR (Error_reading_from_live_data_file OSError)
              (snd (insert_insight e p (insert_message e p ?st6))))"
    using f assms(4,5) pm by (rule cycle_first_line_record)
  have k6: "primary ?st6 = primary st" "insights ?st6 = insights st" "tick ?st6 = tick st + 4"
    using k4 by (simp_all add: logger_def)
  have ins: "primary (snd (insert_insight e p (insert_message e p ?st6))) = primary ?st6 @ [p] \<and>
         insights (snd (insert_insight e p (insert_message e p ?st6))) =
           insights ?st6 @ [(Suc (length (insights ?st6)), p)]"
  proof (rule inserts_ok)
    show "primary_fault e (tick ?st6) = None"
      unfolding k6(3) by (rule assms(7))
    have five: "Suc (tick st + 4) = tick st + 5" by simp
    show "insight_fault e (Suc (tick ?st6)) = None"
      unfolding k6(3) five by (rule assms(8))
  qed
  show ?thesis
    unfolding c using cy ins k6 by (simp add: logger_def)
qed

section \<open>A line that is not valid JSON\<close>




section \<open>The offset\<close>

text \<open>
  C2, a defect of the code. The comment of line 201 announces that \<open>last_position\<close> is
  brought up to the current file position after each line, which is what the claim
  relies on. The \<open>tell\<close> of line 202 is called while the file is being iterated, where
  it raises: the loop never changes \<open>last_position\<close>, a first non-blank line that
  parses ends the loop with \<open>OSError\<close>, and the pass that read it exits with code 11
  and that error in the log. On two complete lines followed by an unterminated one the
  pass ends after the first line, with one row in each sink and the offset still 0.
\<close>

theorem offset_is_never_advanced:
  "fst (snd (for_loop e f last_position st)) = last_position \<and>
   (first_line f = Some (line, f') \<and> json_loads e (strip line) = Inr raw \<longrightarrow>
      fst (for_loop e f last_position st) = Some OSError) \<and>
   (file_at e (tick st) = Inr s \<and>
    first_line (seek (open_file s) last_position) = Some (line, f') \<and>
    json_loads e (strip line) = Inr raw \<longrightarrow>
      fst (cycle e interval_secs last_position st) = Inl (Exit 11) \<and>
      last (logs (snd (cycle e interval_secs last_position st))) =
        (ERROR, Error_reading_from_live_data_file OSError))"
proof (intro conjI impI)
  show "fst (snd (for_loop e f last_position st)) = last_position"
    by (rule for_loop_keeps_position)
next
  assume a: "first_line f = Some (line, f') \<and> json_loads e (strip line) = Inr raw"
  then have "strip line \<noteq> []" "tell f' = Inl OSError"
    using first_line_props by blast+
  with a obtain st' where "for_body e f' line last_position st = (Some OSError, last_position, st')"
    using for_body_parsed_raises by blast
  with a show "fst (for_loop e f last_position st) = Some OSError"
    by (simp add: for_loop_first_line)
next
  assume a: "file_at e (tick st) = Inr s \<and>
    first_line (seek (open_file s) last_position) = Some (line, f') \<and>
    json_loads e (strip line) = Inr raw"
  then obtain st' where c: "cycle e interval_secs last_position st =
           (Inl (Exit 11), logger ERROR (Error_reading_from_live_data_file OSError) st')"
    using cycle_parsed_line by blast
  show "fst (cycle e interval_secs last_position st) = Inl (Exit 11)"
    by (simp add: c)
  show "last (logs (snd (cycle e interval_secs last_position st))) =
        (ERROR, Error_reading_from_live_data_file OSError)"
    by (simp add: c logger_def)
qed

theorem offset_is_never_advanced_witness:
  "fst (snd (for_loop (env_with_file two_and_partial) (seek (open_file two_and_partial) 0) 0 state0)) = 0 \<and>
   fst (for_loop (env_with_file two_and_partial) (seek (open_file two_and_partial) 0) 0 state0) =
     Some OSError \<and>
   fst (cycle (env_with_file two_and_partial) 1 0 state0) = Inl (Exit 11) \<and>
   last (logs (snd (cycle (env_with_file two_and_partial) 1 0 state0))) =
     (ERROR, Error_reading_from_live_data_file OSError) \<and>
   length (primary (snd (cycle (env_with_file two_and_partial) 1 0 state0))) = 1 \<and>
   length (insights (snd (cycle (env_with_file two_and_partial) 1 0 state0))) = 1"
proof -
  let ?e = "env_with_file two_and_partial"
  let ?line = "''{}'' @ [CHR 0x0A]"
  let ?f = "snd (the (first_line (seek (open_file two_and_partial) 0)))"
  have n: "first_line (seek (open_file two_and_partial) 0) = Some (?line, ?f)"
    by (simp add: first_line.simps next_line_def seek_def open_file_def two_and_partial_def
        strip_def isspace_def Let_def)
  have l: "json_loads ?e (strip ?line) = Inr (JObj [])"
    by (simp add: sample_defs strip_def isspace_def)
  have f: "file_at ?e (tick state0) = Inr two_and_partial"
    by (simp add: env_with_file_def)
  note t = offset_is_never_advanced [where e = ?e and f = "seek (open_file two_and_partial) 0"
      and last_position = 0 and st = state0 and line = ?line and f' = ?f and raw = "JObj []"
      and s = two_and_partial and interval_secs = 1]
  from t have 1: "fst (snd (for_loop ?e (seek (open_file two_and_partial) 0) 0 state0)) = 0"
    by blast
  from t n l have 2: "fst (for_loop ?e (seek (open_file two_and_partial) 0) 0 state0) = Some OSError"
    by blast
  from t f n l have 3: "fst (cycle ?e 1 0 state0) = Inl (Exit 11) \<and>
      last (logs (snd (cycle ?e 1 0 state0))) = (ERROR, Error_reading_from_live_data_file OSError)"
    by blast
  have 4: "length (primary (snd (cycle ?e 1 0 state0))) = 1"
    by (simp add: sample_defs two_and_partial_def run_defs for_loop.simps)
  have 5: "length (insights (snd (cycle ?e 1 0 state0))) = 1"
    by (simp add: sample_defs two_and_partial_def run_defs for_loop.simps)
  show ?thesis
    using 1 2 3 4 5 by blast
qed

section \<open>Exit codes\<close>

text \<open>
  C8 gives the four exit codes and says every other condition is not fatal and only
  logged. A line that is not valid JSON, a failure of a record in the spec's own
  taxonomy, ends the process with code 11; and a database initialization that fails
  inside \<open>consume_messages_from_file\<close> (lines 175 and 176, outside any handler of that
  function) ends \<open>main\<close> through the handler of line 262, with no exit code at all.
\<close>

theorem other_conditions_fatal_counterexample:
  "fst (main (env_with_file malformed_first) 1 state0) = Exit 11 \<and>
   primary (snd (main (env_with_file malformed_first) 1 state0)) = [] \<and>
   fst (main env_reinit_fails 1 state0) = Returned"
proof -
  have 1: "fst (main (env_with_file malformed_first) 1 state0) = Exit 11"
    by (simp add: main_defs sample_defs run_defs for_loop.simps)
  have 2: "primary (snd (main (env_with_file malformed_first) 1 state0)) = []"
    by (simp add: main_defs sample_defs run_defs for_loop.simps)
  have 3: "fst (main env_reinit_fails 1 state0) = Returned"
    by (simp add: main_defs env_reinit_fails_def sample_defs logger_def Let_def)
  show ?thesis
    using 1 2 3 by blast
qed

text \<open>
  C8 as amended. The process exits with code 1 when the configuration cannot be read,
  with 2 when the database file exists and cannot be deleted, with 3 when either
  initialization of STEP 3 fails, and with 11 when any exception other than
  \<open>FileNotFoundError\<close> leaves the \<open>try\<close> block of a pass of the loop: the pass and the
  loop exit with 11, and so does \<open>main\<close>, for the first pass after a start in which
  nothing failed and whenever the loop exits. \<open>main\<close> exits with no other code. A live
  data file that does not exist is not fatal: the pass is followed by the next.
\<close>

theorem documented_exit_codes:
  "(config_read e = Inl x \<longrightarrow> fst (main e n st) = Exit 1) \<and>
   (config_read e = Inr interval_secs \<and> db_file st \<and> unlink_fault e = Some x \<longrightarrow>
      fst (main e n st) = Exit 2) \<and>
   (config_read e = Inr interval_secs \<and> (db_file st \<longrightarrow> unlink_fault e = None) \<and>
    (init_db_fault e (tick st) = Some x \<or>
     init_db_fault e (tick st) = None \<and> init_insights_fault e (Suc (tick st)) = Some x) \<longrightarrow>
      fst (main e n st) = Exit 3) \<and>
   (try_block e interval_secs last_position st = (Some x, lp, st') \<and> x \<noteq> FileNotFoundError \<longrightarrow>
      cycle e interval_secs last_position st =
        (Inl (Exit 11), logger ERROR (Error_reading_from_live_data_file x) st') \<and>
      while_true e (Suc n) interval_secs last_position st =
        (Exit 11, logger ERROR (Error_reading_from_live_data_file x) st')) \<and>
   (startup_ok e interval_secs st \<and>
    try_block e interval_secs 0 (loop_entry interval_secs st) = (Some x, lp, st') \<and>
    x \<noteq> FileNotFoundError \<longrightarrow>
      main e (Suc n) st =
        (Exit 11,
         logger INFO Consumer_shutting_down
           (logger ERROR (Error_reading_from_live_data_file x) st'))) \<and>
   (startup_ok e interval_secs st \<and>
    fst (while_true e n interval_secs 0 (loop_entry interval_secs st)) = Exit c \<longrightarrow>
      main e n st =
        (Exit c,
         logger INFO Consumer_shutting_down
           (snd (while_true e n interval_secs 0 (loop_entry interval_secs st))))) \<and>
   (fst (main e n st) = Exit c \<longrightarrow> c = 1 \<or> c = 2 \<or> c = 3 \<or> c = 11) \<and>
   (file_at e (tick st) = Inl FileNotFoundError \<and> 0 \<le> interval_secs \<longrightarrow>
      fst (cycle e interval_secs last_position st) = Inr last_position)"
proof (intro conjI impI)
  assume "config_read e = Inl x"
  then show "fst (main e n st) = Exit 1" by (rule main_config_fails)
next
  assume "config_read e = Inr interval_secs \<and> db_file st \<and> unlink_fault e = Some x"
  then show "fst (main e n st) = Exit 2" using main_unlink_fails by blast
next
  assume "config_read e = Inr interval_secs \<and> (db_file st \<longrightarrow> unlink_fault e = None) \<and>
    (init_db_fault e (tick st) = Some x \<or>
     init_db_fault e (tick st) = None \<and> init_insights_fault e (Suc (tick st)) = Some x)"
  then show "fst (main e n st) = Exit 3"
    using main_init_db_fails main_init_insights_fails by blast
next
  assume a: "try_block e interval_secs last_position st = (Some x, lp, st') \<and> x \<noteq> FileNotFoundError"
  then show c: "cycle e interval_secs last_position st =
        (Inl (Exit 11), logger ERROR (Error_reading_from_live_data_file x) st')"
    using cycle_fatal by blast
  show "while_true e (Suc n) interval_secs last_position st =
        (Exit 11, logger ERROR (Error_reading_from_live_data_file x) st')"
    by (simp add: c)
next
  assume a: "startup_ok e interval_secs st \<and>
    try_block e interval_secs 0 (loop_entry interval_secs st) = (Some x, lp, st') \<and>
    x \<noteq> FileNotFoundError"
  then have so: "startup_ok e interval_secs st" by simp
  from a have c: "cycle e interval_secs 0 (loop_entry interval_secs st) =
        (Inl (Exit 11), logger ERROR (Error_reading_from_live_data_file x) st')"
    using cycle_fatal by blast
  show "main e (Suc n) st =
        (Exit 11,
         logger INFO Consumer_shutting_down
           (logger ERROR (Error_reading_from_live_data_file x) st'))"
    unfolding main_startup [OF so] by (simp add: finish_def c)
next
  assume "startup_ok e interval_secs st \<and>
    fst (while_true e n interval_secs 0 (loop_entry interval_secs st)) = Exit c"
  then show "main e n st =
        (Exit c,
         logger INFO Consumer_shutting_down
           (snd (while_true e n interval_secs 0 (loop_entry interval_secs st))))"
    using main_exit by blast
next
  assume "fst (main e n st) = Exit c"
  then show "c = 1 \<or> c = 2 \<or> c = 3 \<or> c = 11" by (rule main_exit_codes)
next
  assume "file_at e (tick st) = Inl FileNotFoundError \<and> 0 \<le> interval_secs"
  then show "fst (cycle e interval_secs last_position st) = Inr last_position"
    by (simp add: cycle_absent)
qed

theorem documented_exit_codes_witness:
  "fst (main (sample_env\<lparr>config_read := Inl ValueError\<rparr>) 1 state0) = Exit 1 \<and>
   fst (main (sample_env\<lparr>unlink_fault := Some PermissionError\<rparr>) 1 (state0\<lparr>db_file := True\<rparr>)) = Exit 2 \<and>
   fst (main (sample_env\<lparr>init_db_fault := (\<lambda>t. Some DatabaseError)\<rparr>) 1 state0) = Exit 3 \<and>
   fst (main (sample_env\<lparr>init_insights_fault := (\<lambda>t. Some DatabaseError)\<rparr>) 1 state0) = Exit 3 \<and>
   fst (while_true (env_with_file malformed_first) 1 1 0 state0) = Exit 11 \<and>
   fst (main (env_with_file malformed_first) 1 state0) = Exit 11 \<and>
   fst (main (env_with_file one_line) 3 state0) = Exit 11 \<and>
   fst (cycle sample_env 1 0 state0) = Inr 0"
proof -
  note t = documented_exit_codes
  have 1: "fst (main (sample_env\<lparr>config_read := Inl ValueError\<rparr>) 1 state0) = Exit 1"
    using t [where e = "sample_env\<lparr>config_read := Inl ValueError\<rparr>" and x = ValueError
        and n = 1 and st = state0]
    by simp
  have 2: "fst (main (sample_env\<lparr>unlink_fault := Some PermissionError\<rparr>) 1 (state0\<lparr>db_file := True\<rparr>)) = Exit 2"
    using t [where e = "sample_env\<lparr>unlink_fault := Some PermissionError\<rparr>" and x = PermissionError
        and n = 1 and st = "state0\<lparr>db_file := True\<rparr>" and interval_secs = 1]
    by (simp add: sample_env_def)
  have 3: "fst (main (sample_env\<lparr>init_db_fault := (\<lambda>t. Some DatabaseError)\<rparr>) 1 state0) = Exit 3"
    using t [where e = "sample_env\<lparr>init_db_fault := (\<lambda>t. Some DatabaseError)\<rparr>"
        and x = DatabaseError and n = 1 and st = state0 and interval_secs = 1]
    by (simp add: sample_env_def state0_def)
  have 4: "fst (main (sample_env\<lparr>init_insights_fault := (\<lambda>t. Some DatabaseError)\<rparr>) 1 state0) = Exit 3"
    using t [where e = "sample_env\<lparr>init_insights_fault := (\<lambda>t. Some DatabaseError)\<rparr>"
        and x = DatabaseError and n = 1 and st = state0 and interval_secs = 1]
    by (simp add: sample_env_def state0_def)
  let ?e = "env_with_file malformed_first"
  have tb: "try_block ?e 1 0 state0 =
      (Some JSONDecodeError, 0,
       state0\<lparr>logs := [(INFO, Step3_read_from_live_data_file_at_position 0)], tick := 1\<rparr>)"
    by (simp add: sample_defs run_defs for_loop.simps)
  have 5: "fst (while_true ?e 1 1 0 state0) = Exit 11"
    using t [where e = ?e and x = JSONDecodeError and n = 0 and st = state0 and interval_secs = 1
        and last_position = 0 and lp = 0
        and st' = "state0\<lparr>logs := [(INFO, Step3_read_from_live_data_file_at_position 0)], tick := 1\<rparr>"] tb
    by (simp del: while_true.simps)
  have so: "startup_ok ?e 1 state0"
    by (simp add: startup_ok_def sample_defs)
  have tb2: "try_block ?e 1 0 (loop_entry 1 state0) =
      (Some JSONDecodeError, 0, snd (snd (try_block ?e 1 0 (loop_entry 1 state0))))"
    by (simp add: sample_defs run_defs for_loop.simps loop_entry_def)
  have 6: "fst (main ?e 1 state0) = Exit 11"
    using t [where e = ?e and x = JSONDecodeError and n = 0 and st = state0 and interval_secs = 1
        and lp = 0 and st' = "snd (snd (try_block ?e 1 0 (loop_entry 1 state0)))"] so tb2
    by simp
  let ?o = "env_with_file one_line"
  have so2: "startup_ok ?o 1 state0"
    by (simp add: startup_ok_def sample_defs)
  have c2: "fst (cycle ?o 1 0 (loop_entry 1 state0)) = Inl (Exit 11)"
    by (simp add: sample_defs one_line_def run_defs for_loop.simps loop_entry_def)
  have w2: "fst (while_true ?o 3 1 0 (loop_entry 1 state0)) = Exit 11"
    using while_true_leaves [OF c2, of 3] by simp
  have 7: "fst (main ?o 3 state0) = Exit 11"
    using t [where e = ?o and n = 3 and st = state0 and interval_secs = 1 and c = 11] so2 w2
    by simp
  have 8: "fst (cycle sample_env 1 0 state0) = Inr 0"
    using t [where e = sample_env and st = state0 and interval_secs = 1 and last_position = 0]
    by (simp add: sample_env_def)
  show ?thesis
    using 1 2 3 4 5 6 7 8 by blast
qed

section \<open>The argument last\_position\<close>

text \<open>
  C10. \<open>consume_messages_from_file\<close> ignores its argument \<open>last_position\<close>: whatever
  value is passed, the outcome is that of the call with 0, and so is the final state but
  for the one log line that echoes the argument (line 172). When both initializations
  succeed, the first pass reads from position 0: it logs that position, and the line it
  handles is the first non-blank line from the beginning of the file, whose record it
  inserts, whatever the argument was.
\<close>

theorem last_position_argument_is_ignored:
  "fst (consume_messages_from_file e n interval_secs last_position st) =
     fst (consume_messages_from_file e n interval_secs 0 st) \<and>
   snd (consume_messages_from_file e n interval_secs last_position st) =
     (snd (consume_messages_from_file e n interval_secs 0 st))
       \<lparr>logs := logs st @ header interval_secs last_position @
                 drop (length (logs st) + 6)
                   (logs (snd (consume_messages_from_file e n interval_secs 0 st)))\<rparr> \<and>
   (init_db_fault e (tick st) = None \<and> init_insights_fault e (Suc (tick st)) = None \<longrightarrow>
      take 3 (drop (length (logs st) + 6)
                (logs (snd (consume_messages_from_file e (Suc m) interval_secs last_position st)))) =
        [(INFO, Initialized_insights_db), (INFO, Step2_set_the_last_position_to_0),
         (INFO, Step3_read_from_live_data_file_at_position 0)]) \<and>
   (init_db_fault e (tick st) = None \<and> init_insights_fault e (tick st + 1) = None \<and>
    file_at e (tick st + 2) = Inr s \<and>
    first_line (seek (open_file s) 0) = Some (line, f') \<and>
    json_loads e (strip line) = Inr raw \<and>
    process_message_body e (utcnow e (tick st + 3)) raw = Inr p \<and>
    primary_fault e (tick st + 4) = None \<and> insight_fault e (tick st + 5) = None \<longrightarrow>
      fst (consume_messages_from_file e (Suc m) interval_secs last_position st) = Exit 11 \<and>
      primary (snd (consume_messages_from_file e (Suc m) interval_secs last_position st)) =
        primary st @ [p] \<and>
      insights (snd (consume_messages_from_file e (Suc m) interval_secs last_position st)) =
        insights st @ [(Suc (length (insights st)), p)])"
proof (intro conjI impI)
  let ?A = "after_header e n interval_secs (st\<lparr>logs := []\<rparr>)"
  have h: "length (header interval_secs p) = 6" for p
    by (simp add: header_def)
  show "fst (consume_messages_from_file e n interval_secs last_position st) =
     fst (consume_messages_from_file e n interval_secs 0 st)"
    by (simp add: consume_after_header)
  have d: "drop (length (logs st) + 6)
             (logs (snd (consume_messages_from_file e n interval_secs 0 st))) = logs (snd ?A)"
    by (simp add: consume_after_header h)
  show "snd (consume_messages_from_file e n interval_secs last_position st) =
     (snd (consume_messages_from_file e n interval_secs 0 st))
       \<lparr>logs := logs st @ header interval_secs last_position @
                 drop (length (logs st) + 6)
                   (logs (snd (consume_messages_from_file e n interval_secs 0 st)))\<rparr>"
    unfolding d by (simp add: consume_after_header prepend_logs_def)
next
  assume a: "init_db_fault e (tick st) = None \<and> init_insights_fault e (Suc (tick st)) = None"
  have h: "length (header interval_secs last_position) = 6"
    by (simp add: header_def)
  from a obtain rest where
    "logs (snd (after_header e (Suc m) interval_secs (st\<lparr>logs := []\<rparr>))) =
           [(INFO, Initialized_insights_db), (INFO, Step2_set_the_last_position_to_0),
            (INFO, Step3_read_from_live_data_file_at_position 0)] @ rest"
    using after_header_first_logs [of e "st\<lparr>logs := []\<rparr>" m interval_secs] by auto
  then show "take 3 (drop (length (logs st) + 6)
                (logs (snd (consume_messages_from_file e (Suc m) interval_secs last_position st)))) =
        [(INFO, Initialized_insights_db), (INFO, Step2_set_the_last_position_to_0),
         (INFO, Step3_read_from_live_data_file_at_position 0)]"
    by (simp add: consume_after_header h)
next
  assume a: "init_db_fault e (tick st) = None \<and> init_insights_fault e (tick st + 1) = None \<and>
    file_at e (tick st + 2) = Inr s \<and>
    first_line (seek (open_file s) 0) = Some (line, f') \<and>
    json_loads e (strip line) = Inr raw \<and>
    process_message_body e (utcnow e (tick st + 3)) raw = Inr p \<and>
    primary_fault e (tick st + 4) = None \<and> insight_fault e (tick st + 5) = None"
  then have r: "fst (consume_messages_from_file e (Suc m) interval_secs last_position st) = Exit 11 \<and>
      primary (snd (consume_messages_from_file e (Suc m) interval_secs last_position st)) =
        primary st @ [p] \<and>
      insights (snd (consume_messages_from_file e (Suc m) interval_secs last_position st)) =
        insights st @ [(Suc (length (insights st)), p)]"
    using consume_reads_from_start [of e st s line f' raw p m interval_secs last_position] by blast
  from r show "fst (consume_messages_from_file e (Suc m) interval_secs last_position st) = Exit 11"
    by blast
  from r show "primary (snd (consume_messages_from_file e (Suc m) interval_secs last_position st)) =
        primary st @ [p]"
    by blast
  from r show "insights (snd (consume_messages_from_file e (Suc m) interval_secs last_position st)) =
        insights st @ [(Suc (length (insights st)), p)]"
    by blast
qed

theorem last_position_argument_is_ignored_witness:
  "fst (consume_messages_from_file (env_with_file list_after_dict) 1 1 3 state0) =
     fst (consume_messages_from_file (env_with_file list_after_dict) 1 1 0 state0) \<and>
   take 3 (drop 6 (logs (snd (consume_messages_from_file (env_with_file list_after_dict) 1 1 3 state0)))) =
     [(INFO, Initialized_insights_db), (INFO, Step2_set_the_last_position_to_0),
      (INFO, Step3_read_from_live_data_file_at_position 0)] \<and>
   fst (consume_messages_from_file (env_with_file list_after_dict) 1 1 3 state0) = Exit 11 \<and>
   primary (snd (consume_messages_from_file (env_with_file list_after_dict) 1 1 3 state0)) =
     [the (fst (process_message (env_with_file list_after_dict) (JObj []) state0))] \<and>
   insights (snd (consume_messages_from_file (env_with_file list_after_dict) 1 1 3 state0)) =
     [(1, the (fst (process_message (env_with_file list_after_dict) (JObj []) state0)))] \<and>
   fst (next_line (seek (open_file list_after_dict) 3)) = Some (''[1]'' @ [CHR 0x0A]) \<and>
   fst (process_message (env_with_file list_after_dict) (JArr [JInt 1]) state0) = None"
proof -
  let ?e = "env_with_file list_after_dict"
  let ?line = "''{}'' @ [CHR 0x0A]"
  let ?f = "snd (the (first_line (seek (open_file list_after_dict) 0)))"
  let ?p = "the (fst (process_message ?e (JObj []) state0))"
  have i: "init_db_fault ?e (tick state0) = None \<and> init_insights_fault ?e (Suc (tick state0)) = None"
    by (simp add: sample_defs)
  have h: "init_db_fault ?e (tick state0) = None \<and> init_insights_fault ?e (tick state0 + 1) = None \<and>
    file_at ?e (tick state0 + 2) = Inr list_after_dict \<and>
    json_loads ?e (strip ?line) = Inr (JObj []) \<and>
    primary_fault ?e (tick state0 + 4) = None \<and> insight_fault ?e (tick state0 + 5) = None"
    by (simp add: sample_defs strip_def isspace_def)
  have n: "first_line (seek (open_file list_after_dict) 0) = Some (?line, ?f)"
    by (simp add: first_line.simps next_line_def seek_def open_file_def list_after_dict_def
        strip_def isspace_def Let_def)
  have p: "process_message_body ?e (utcnow ?e (tick state0 + 3)) (JObj []) = Inr ?p"
    by (simp add: pm_defs env_with_file_def)
  note t = last_position_argument_is_ignored [where e = ?e and n = 1 and interval_secs = 1
      and last_position = 3 and st = state0 and m = 0 and s = list_after_dict and line = ?line
      and f' = ?f and raw = "JObj []" and p = ?p]
  from t have 1: "fst (consume_messages_from_file ?e 1 1 3 state0) =
     fst (consume_messages_from_file ?e 1 1 0 state0)"
    by blast
  from t i have 2: "take 3 (drop (length (logs state0) + 6)
                (logs (snd (consume_messages_from_file ?e (Suc 0) 1 3 state0)))) =
        [(INFO, Initialized_insights_db), (INFO, Step2_set_the_last_position_to_0),
         (INFO, Step3_read_from_live_data_file_at_position 0)]"
    by blast
  from t h n p have 3: "fst (consume_messages_from_file ?e (Suc 0) 1 3 state0) = Exit 11 \<and>
      primary (snd (consume_messages_from_file ?e (Suc 0) 1 3 state0)) = primary state0 @ [?p] \<and>
      insights (snd (consume_messages_from_file ?e (Suc 0) 1 3 state0)) =
        insights state0 @ [(Suc (length (insights state0)), ?p)]"
    by blast
  have 4: "fst (next_line (seek (open_file list_after_dict) 3)) = Some (''[1]'' @ [CHR 0x0A])"
    by (simp add: next_line_def seek_def open_file_def list_after_dict_def Let_def)
  have 5: "fst (process_message ?e (JArr [JInt 1]) state0) = None"
    by (simp add: pm_defs env_with_file_def)
  have s0: "logs state0 = []" "primary state0 = []" "insights state0 = []"
    by (simp_all add: state0_def)
  show ?thesis
    using 1 2 3 4 5 unfolding s0 by simp
qed

end
